theory Spec2Isabelle
  imports Complex_Main "HOL-Library.Word"
begin

section \<open>JSON values and \<open>JSON.parse\<close>\<close>

text \<open>
  The backend (\<^verbatim>\<open>backend/src/mqttClient.js\<close>) receives every MQTT payload as bytes and
  hands \<^verbatim>\<open>message.toString()\<close> to \<^verbatim>\<open>JSON.parse\<close>. A text is a \<open>string\<close> (the bytes of
  the message); a parsed value is a \<open>json\<close>. \<^verbatim>\<open>JSON.parse\<close> is the host's function; it
  is modelled after the JSON grammar (ECMA-404): a lexer, then a pushdown parser over the
  tokens, both total.

  A number of the host is an IEEE 754 binary64 value. \<open>JNum q\<close> is the finite value
  \<open>q\<close>; \<open>JInfinity\<close> and \<open>JNegInfinity\<close> are the two infinite values, which
  \<^verbatim>\<open>JSON.parse\<close> returns for a literal beyond the range (\<^verbatim>\<open>1e309\<close>). The sign of zero,
  which none of the handlers observes, is not kept, and \<^verbatim>\<open>JSON.parse\<close> never returns NaN.
\<close>

datatype json =
    JNull
  | JBool bool
  | JNum rat
  | JInfinity
  | JNegInfinity
  | JStr string
  | JArr "json list"
  | JObj "(string \<times> json) list"

datatype token = TLBrace | TRBrace | TLBrack | TRBrack | TColon | TComma | TAtom json

definition is_ws :: "char \<Rightarrow> bool" where
  "is_ws c = (c = CHR '' '' \<or> c = CHR 0x09 \<or> c = CHR 0x0A \<or> c = CHR 0x0D)"

definition is_digit :: "char \<Rightarrow> bool" where
  "is_digit c = (48 \<le> (of_char c :: nat) \<and> (of_char c :: nat) \<le> 57)"

definition digit_val :: "char \<Rightarrow> nat" where
  "digit_val c = of_char c - 48"

definition hex_val :: "char \<Rightarrow> nat option" where
  "hex_val c =
     (let n = (of_char c :: nat) in
      if 48 \<le> n \<and> n \<le> 57 then Some (n - 48)
      else if 65 \<le> n \<and> n \<le> 70 then Some (n - 55)
      else if 97 \<le> n \<and> n \<le> 102 then Some (n - 87)
      else None)"

text \<open>The value of a run of decimal digits, most significant first.\<close>

definition digits_val :: "string \<Rightarrow> int" where
  "digits_val ds = foldl (\<lambda>acc c. 10 * acc + int (digit_val c)) 0 ds"

text \<open>
  A \<^verbatim>\<open>\uXXXX\<close> escape denotes one UTF-16 code unit; the text keeps it as the UTF-8 bytes
  of that code point (the halves of a surrogate pair are kept as two three-byte groups).
\<close>

definition utf8 :: "nat \<Rightarrow> string" where
  "utf8 cp =
     (if cp < 0x80 then [char_of cp]
      else if cp < 0x800 then [char_of (0xC0 + cp div 64), char_of (0x80 + cp mod 64)]
      else [char_of (0xE0 + cp div 4096), char_of (0x80 + (cp div 64) mod 64),
            char_of (0x80 + cp mod 64)])"

definition unescape :: "char \<Rightarrow> char option" where
  "unescape c =
     (if c = CHR 0x22 then Some (CHR 0x22)
      else if c = CHR 0x5C then Some (CHR 0x5C)
      else if c = CHR ''/'' then Some (CHR ''/'')
      else if c = CHR ''b'' then Some (CHR 0x08)
      else if c = CHR ''f'' then Some (CHR 0x0C)
      else if c = CHR ''n'' then Some (CHR 0x0A)
      else if c = CHR ''r'' then Some (CHR 0x0D)
      else if c = CHR ''t'' then Some (CHR 0x09)
      else None)"

text \<open>
  \<open>lex_string acc cs\<close> reads the rest of a string literal after its opening quote:
  the decoded characters (in \<open>acc\<close>, reversed) and the text after the closing quote.
\<close>

fun lex_string :: "string \<Rightarrow> string \<Rightarrow> (string \<times> string) option" where
  "lex_string acc [] = None"
| "lex_string acc (c # cs) =
     (if c = CHR 0x22 then Some (rev acc, cs)
      else if (of_char c :: nat) < 0x20 then None
      else if c = CHR 0x5C then
        (case cs of
           [] \<Rightarrow> None
         | e # es \<Rightarrow>
             if e = CHR ''u'' then
               (case es of
                  h1 # h2 # h3 # h4 # rest \<Rightarrow>
                    (case (hex_val h1, hex_val h2, hex_val h3, hex_val h4) of
                       (Some a, Some b, Some c', Some d) \<Rightarrow>
                         lex_string (rev (utf8 (4096 * a + 256 * b + 16 * c' + d)) @ acc) rest
                     | _ \<Rightarrow> None)
                | _ \<Rightarrow> None)
             else
               (case unescape e of
                  None \<Rightarrow> None
                | Some x \<Rightarrow> lex_string (x # acc) es))
      else lex_string (c # acc) cs)"

text \<open>
  A number literal is \<^verbatim>\<open>-? (0 | [1-9][0-9]*) (. [0-9]+)? ([eE] [+-]? [0-9]+)?\<close>.
  Each part returns what it read and the text after it.
\<close>

definition lex_int :: "string \<Rightarrow> (string \<times> string) option" where
  "lex_int cs =
     (let ip = takeWhile is_digit cs
      in if ip = [] \<or> (1 < length ip \<and> hd ip = CHR ''0'') then None
         else Some (ip, dropWhile is_digit cs))"

definition lex_frac :: "string \<Rightarrow> (string \<times> string) option" where
  "lex_frac cs =
     (if cs \<noteq> [] \<and> hd cs = CHR ''.'' then
        (let fp = takeWhile is_digit (tl cs)
         in if fp = [] then None else Some (fp, dropWhile is_digit (tl cs)))
      else Some ([], cs))"

definition lex_exp :: "string \<Rightarrow> ((bool \<times> string) \<times> string) option" where
  "lex_exp cs =
     (if cs \<noteq> [] \<and> (hd cs = CHR ''e'' \<or> hd cs = CHR ''E'') then
        (let cs1 = tl cs;
             eneg = (cs1 \<noteq> [] \<and> hd cs1 = CHR ''-'');
             esgn = (cs1 \<noteq> [] \<and> (hd cs1 = CHR ''-'' \<or> hd cs1 = CHR ''+''));
             cs2 = (if esgn then tl cs1 else cs1);
             ep = takeWhile is_digit cs2
         in if ep = [] then None else Some ((eneg, ep), dropWhile is_digit cs2))
      else Some ((False, []), cs))"

text \<open>
  The magnitude of a literal, exactly, as a numerator and a positive denominator: the
  digits of the integer and fraction parts, scaled by the power of ten of the exponent.
\<close>

definition number_ratio :: "string \<Rightarrow> string \<Rightarrow> bool \<Rightarrow> string \<Rightarrow> int \<times> int" where
  "number_ratio ip fp eneg ep =
     (if eneg then (digits_val (ip @ fp), 10 ^ length fp * 10 ^ nat (digits_val ep))
      else (digits_val (ip @ fp) * 10 ^ nat (digits_val ep), 10 ^ length fp))"

text \<open>
  The host takes for a literal the binary64 value nearest to it, the one with the even
  significand when two are equally near, and an infinity when the rounded magnitude
  reaches \<open>2 ^ 1024\<close>. For a magnitude \<open>n / d\<close> with \<open>2 ^ e \<le> n / d < 2 ^ (e + 1)\<close>
  the values around it are the multiples of \<open>2 ^ (e - 52)\<close>; below \<open>2 ^ - 1022\<close> (the
  subnormal range) they are the multiples of \<open>2 ^ - 1074\<close>.
\<close>

function bit_length :: "int \<Rightarrow> nat" where
  "bit_length n = (if n \<le> 0 then 0 else Suc (bit_length (n div 2)))"
  by pat_completeness auto
termination
  by (relation "measure nat") auto

declare bit_length.simps [simp del]

text \<open>\<open>scaled_le k d n\<close> is \<open>2 ^ k \<le> n / d\<close>, for positive \<open>d\<close>.\<close>

definition scaled_le :: "int \<Rightarrow> int \<Rightarrow> int \<Rightarrow> bool" where
  "scaled_le k d n = (if 0 \<le> k then 2 ^ nat k * d \<le> n else d \<le> 2 ^ nat (- k) * n)"

text \<open>
  \<open>binary_exponent n d\<close> is the \<open>e\<close> with \<open>2 ^ e \<le> n / d < 2 ^ (e + 1)\<close>, for
  positive \<open>n\<close> and \<open>d\<close>: the difference of the bit lengths, or one less.
\<close>

definition adjust_exponent :: "int \<Rightarrow> int \<Rightarrow> int \<Rightarrow> int" where
  "adjust_exponent k n d = (if scaled_le k d n then k else k - 1)"

definition binary_exponent :: "int \<Rightarrow> int \<Rightarrow> int" where
  "binary_exponent n d = adjust_exponent (int (bit_length n) - int (bit_length d)) n d"

text \<open>\<open>round_half_even n d\<close> is the integer nearest to \<open>n / d\<close>, the even one at a tie.\<close>

definition nearest_even :: "int \<Rightarrow> int \<Rightarrow> int \<Rightarrow> int" where
  "nearest_even m r d =
     (if 2 * r < d then m else if d < 2 * r then m + 1 else if even m then m else m + 1)"

definition round_half_even :: "int \<Rightarrow> int \<Rightarrow> int" where
  "round_half_even n d = nearest_even (n div d) (n mod d) d"

text \<open>The significand of \<open>n / d\<close> in units of \<open>2 ^ p\<close>, and the value it stands for.\<close>

definition significand :: "int \<Rightarrow> int \<Rightarrow> int \<Rightarrow> int" where
  "significand p n d =
     (if 0 \<le> p then round_half_even n (d * 2 ^ nat p) else round_half_even (n * 2 ^ nat (- p)) d)"

definition pow2 :: "int \<Rightarrow> rat" where
  "pow2 k = (if 0 \<le> k then 2 ^ nat k else 1 / 2 ^ nat (- k))"

definition overflows :: "int \<Rightarrow> int \<Rightarrow> bool" where
  "overflows m p = (if 0 \<le> p then (2 :: int) ^ 1024 \<le> m * 2 ^ nat p else False)"

definition finite_or_infinite :: "bool \<Rightarrow> int \<Rightarrow> int \<Rightarrow> json" where
  "finite_or_infinite neg m p =
     (if overflows m p then (if neg then JNegInfinity else JInfinity)
      else JNum ((if neg then - 1 else 1) * of_int m * pow2 p))"

definition round_at :: "bool \<Rightarrow> int \<Rightarrow> int \<Rightarrow> int \<Rightarrow> json" where
  "round_at neg p n d = finite_or_infinite neg (significand p n d) p"

definition binary64 :: "bool \<Rightarrow> int \<Rightarrow> int \<Rightarrow> json" where
  "binary64 neg n d =
     (if n = 0 then JNum 0 else round_at neg (max (binary_exponent n d) (- 1022) - 52) n d)"

definition lex_number :: "string \<Rightarrow> (json \<times> string) option" where
  "lex_number cs =
     (let neg = (cs \<noteq> [] \<and> hd cs = CHR ''-'');
          cs1 = (if neg then tl cs else cs)
      in case lex_int cs1 of
           None \<Rightarrow> None
         | Some (ip, cs2) \<Rightarrow>
             (case lex_frac cs2 of
                None \<Rightarrow> None
              | Some (fp, cs3) \<Rightarrow>
                  (case lex_exp cs3 of
                     None \<Rightarrow> None
                   | Some ((eneg, ep), cs4) \<Rightarrow>
                       (case number_ratio ip fp eneg ep of
                          (n, d) \<Rightarrow> Some (binary64 neg n d, cs4)))))"

definition starts_with :: "string \<Rightarrow> string \<Rightarrow> bool" where
  "starts_with p cs = (take (length p) cs = p)"

lemma lex_string_shorter:
  "lex_string acc cs = Some (s, rest) \<Longrightarrow> length rest < length cs"
proof (induction acc cs rule: lex_string.induct)
  case (1 acc)
  then show ?case by simp
next
  case (2 acc c cs)
  show ?case
  proof (cases "c = CHR 0x22")
    case True
    with 2 show ?thesis by simp
  next
    case nq: False
    show ?thesis
    proof (cases "(of_char c :: nat) < 0x20")
      case True
      with 2 nq show ?thesis by simp
    next
      case nc: False
      show ?thesis
      proof (cases "c = CHR 0x5C")
        case False
        with 2 nq nc show ?thesis by (simp add: less_Suc_eq)
      next
        case bs: True
        show ?thesis
        proof (cases cs)
          case Nil
          with 2 nq nc bs show ?thesis by simp
        next
          case (Cons e es)
          show ?thesis
          proof (cases "e = CHR ''u''")
            case False
            with 2 nq nc bs Cons show ?thesis
              by (auto split: option.splits simp: less_Suc_eq)
          next
            case u: True
            with 2 nq nc bs Cons show ?thesis
              by (auto split: list.splits option.splits simp: less_Suc_eq)
          qed
        qed
      qed
    qed
  qed
qed

lemma dropWhile_digit_shorter:
  "takeWhile is_digit xs \<noteq> [] \<Longrightarrow> length (dropWhile is_digit xs) < length xs"
  by (cases xs) (auto simp: le_imp_less_Suc length_dropWhile_le split: if_splits)

lemma lex_int_shorter: "lex_int cs = Some (ip, rest) \<Longrightarrow> length rest < length cs"
  by (auto simp: lex_int_def Let_def dropWhile_digit_shorter split: if_splits)

lemma lex_frac_le: "lex_frac cs = Some (fp, rest) \<Longrightarrow> length rest \<le> length cs"
  using length_dropWhile_le [of is_digit "tl cs"]
  by (auto simp: lex_frac_def Let_def split: if_splits)

lemma lex_exp_le: "lex_exp cs = Some (e, rest) \<Longrightarrow> length rest \<le> length cs"
  using length_dropWhile_le [of is_digit "tl cs"] length_dropWhile_le [of is_digit "tl (tl cs)"]
  by (auto simp: lex_exp_def Let_def split: if_splits)

lemma lex_number_shorter:
  assumes "lex_number cs = Some (q, rest)"
  shows "length rest < length cs"
proof -
  define cs1 where "cs1 = (if cs \<noteq> [] \<and> hd cs = CHR ''-'' then tl cs else cs)"
  have c1: "length cs1 \<le> length cs"
    by (simp add: cs1_def)
  from assms obtain ip cs2 fp cs3 e where
    i: "lex_int cs1 = Some (ip, cs2)" and f: "lex_frac cs2 = Some (fp, cs3)"
    and x: "lex_exp cs3 = Some (e, rest)"
    unfolding lex_number_def Let_def cs1_def [symmetric]
    by (auto split: option.splits prod.splits)
  from lex_int_shorter [OF i] lex_frac_le [OF f] lex_exp_le [OF x] c1
  show ?thesis by linarith
qed

text \<open>The lexer: the text as a list of tokens, or \<open>None\<close> where no token starts.\<close>

function lex :: "string \<Rightarrow> token list option" where
  "lex [] = Some []"
| "lex (c # cs) =
     (if is_ws c then lex cs
      else if c = CHR ''{'' then map_option (Cons TLBrace) (lex cs)
      else if c = CHR ''}'' then map_option (Cons TRBrace) (lex cs)
      else if c = CHR ''['' then map_option (Cons TLBrack) (lex cs)
      else if c = CHR '']'' then map_option (Cons TRBrack) (lex cs)
      else if c = CHR '':'' then map_option (Cons TColon) (lex cs)
      else if c = CHR '','' then map_option (Cons TComma) (lex cs)
      else if c = CHR 0x22 then
        (case lex_string [] cs of
           None \<Rightarrow> None
         | Some (s, rest) \<Rightarrow> map_option (Cons (TAtom (JStr s))) (lex rest))
      else if starts_with ''true'' (c # cs) then
        map_option (Cons (TAtom (JBool True))) (lex (drop 3 cs))
      else if starts_with ''false'' (c # cs) then
        map_option (Cons (TAtom (JBool False))) (lex (drop 4 cs))
      else if starts_with ''null'' (c # cs) then
        map_option (Cons (TAtom JNull)) (lex (drop 3 cs))
      else
        (case lex_number (c # cs) of
           None \<Rightarrow> None
         | Some (v, rest) \<Rightarrow> map_option (Cons (TAtom v)) (lex rest)))"
  by pat_completeness auto
termination
proof (relation "measure length")
  show "wf (measure length)" by simp
next
  fix c cs x2 x y
  assume "lex_string [] cs = Some x2" "(x, y) = x2"
  then have "lex_string [] cs = Some (x, y)" by simp
  from lex_string_shorter [OF this] show "(y, c # cs) \<in> measure length" by simp
next
  fix c cs x2 x y
  assume "lex_number (c # cs) = Some x2" "(x, y) = x2"
  then have "lex_number (c # cs) = Some (x, y)" by simp
  from lex_number_shorter [OF this] show "(y, c # cs) \<in> measure length" by simp
qed simp_all

text \<open>
  The parser is a pushdown automaton over the tokens. A frame is a container waiting
  for its next value: an array with its elements so far, or an object with its members so
  far and the key just read (both newest first).
\<close>

datatype frame = FArr "json list" | FObj "(string \<times> json) list" string

datatype pstate =
    S_value "frame list"
  | S_arr_first "frame list"
  | S_arr_rest "json list" "frame list"
  | S_obj_first "frame list"
  | S_obj_key "(string \<times> json) list" "frame list"
  | S_colon "(string \<times> json) list" string "frame list"
  | S_obj_rest "(string \<times> json) list" "frame list"
  | S_done json

fun complete :: "json \<Rightarrow> frame list \<Rightarrow> pstate" where
  "complete v [] = S_done v"
| "complete v (FArr es # ctx) = S_arr_rest (v # es) ctx"
| "complete v (FObj kvs k # ctx) = S_obj_rest ((k, v) # kvs) ctx"

fun begin_value :: "frame list \<Rightarrow> token \<Rightarrow> pstate option" where
  "begin_value ctx (TAtom v) = Some (complete v ctx)"
| "begin_value ctx TLBrack = Some (S_arr_first ctx)"
| "begin_value ctx TLBrace = Some (S_obj_first ctx)"
| "begin_value ctx _ = None"

fun step :: "pstate \<Rightarrow> token \<Rightarrow> pstate option" where
  "step (S_value ctx) t = begin_value ctx t"
| "step (S_arr_first ctx) t =
     (if t = TRBrack then Some (complete (JArr []) ctx) else begin_value (FArr [] # ctx) t)"
| "step (S_arr_rest es ctx) t =
     (if t = TComma then Some (S_value (FArr es # ctx))
      else if t = TRBrack then Some (complete (JArr (rev es)) ctx)
      else None)"
| "step (S_obj_first ctx) t =
     (case t of
        TRBrace \<Rightarrow> Some (complete (JObj []) ctx)
      | TAtom (JStr k) \<Rightarrow> Some (S_colon [] k ctx)
      | _ \<Rightarrow> None)"
| "step (S_obj_key kvs ctx) t =
     (case t of TAtom (JStr k) \<Rightarrow> Some (S_colon kvs k ctx) | _ \<Rightarrow> None)"
| "step (S_colon kvs k ctx) t =
     (if t = TColon then Some (S_value (FObj kvs k # ctx)) else None)"
| "step (S_obj_rest kvs ctx) t =
     (if t = TComma then Some (S_obj_key kvs ctx)
      else if t = TRBrace then Some (complete (JObj (rev kvs)) ctx)
      else None)"
| "step (S_done v) t = None"

fun run :: "pstate \<Rightarrow> token list \<Rightarrow> pstate option" where
  "run s [] = Some s"
| "run s (t # ts) = (case step s t of None \<Rightarrow> None | Some s' \<Rightarrow> run s' ts)"

text \<open>
  What a handler can throw: the two errors of the host, the error of \<^verbatim>\<open>updateBinConfig\<close>,
  and the errors with which the database rejects a query. \<open>Not_modelled\<close> marks a query
  whose parameter the model of the database does not cover.
\<close>

datatype error =
    SyntaxError
  | TypeError
  | No_valid_fields
  | ER_PARSE_ERROR
  | ER_BAD_FIELD_ERROR
  | ER_OPERAND_COLUMNS
  | ER_WRONG_VALUE_COUNT_ON_ROW
  | ER_WARN_DATA_OUT_OF_RANGE
  | ER_DATA_TOO_LONG
  | ER_NO_REFERENCED_ROW
  | Not_modelled

text \<open>\<^verbatim>\<open>JSON.parse(text)\<close>: the value, or the SyntaxError it throws.\<close>

definition JSON_parse :: "string \<Rightarrow> error + json" where
  "JSON_parse text =
     (case lex text of
        None \<Rightarrow> Inl SyntaxError
      | Some ts \<Rightarrow>
          (case run (S_value []) ts of
             Some (S_done v) \<Rightarrow> Inr v
           | _ \<Rightarrow> Inl SyntaxError))"

section \<open>JavaScript values in the handlers\<close>

text \<open>
  \<open>get_prop k v\<close> is the property read \<^verbatim>\<open>v.k\<close> (also by destructuring) on a parsed
  value, \<open>None\<close> for \<^verbatim>\<open>undefined\<close>. Of two members with one key \<^verbatim>\<open>JSON.parse\<close> keeps
  the later. The handlers read \<^verbatim>\<open>level\<close>, \<^verbatim>\<open>cm\<close>, \<^verbatim>\<open>uid\<close> and the configuration fields,
  which no array, string, number or boolean has. Destructuring \<^verbatim>\<open>null\<close> throws a
  TypeError; each handler checks for it first.
\<close>

fun get_prop :: "string \<Rightarrow> json \<Rightarrow> json option" where
  "get_prop k (JObj kvs) = map_of (rev kvs) k"
| "get_prop k v = None"

text \<open>Truthiness of a value: \<^verbatim>\<open>null\<close>, \<^verbatim>\<open>false\<close>, \<^verbatim>\<open>0\<close> and \<^verbatim>\<open>""\<close> are falsy.\<close>

fun truthy :: "json \<Rightarrow> bool" where
  "truthy JNull = False"
| "truthy (JBool b) = b"
| "truthy (JNum q) = (q \<noteq> 0)"
| "truthy JInfinity = True"
| "truthy JNegInfinity = True"
| "truthy (JStr s) = (s \<noteq> [])"
| "truthy (JArr xs) = True"
| "truthy (JObj kvs) = True"

text \<open>\<^verbatim>\<open>topic.split('/')\<close>: the segments between separators, empty ones included.\<close>

fun String_split :: "char \<Rightarrow> string \<Rightarrow> string list" where
  "String_split sep [] = [[]]"
| "String_split sep (c # cs) =
     (if c = sep then [] # String_split sep cs
      else (case String_split sep cs of
              [] \<Rightarrow> [[c]]
            | r # rs \<Rightarrow> (c # r) # rs))"

section \<open>The record store (\<^verbatim>\<open>backend/schema.sql\<close>, \<^verbatim>\<open>backend/src/db.js\<close>)\<close>

text \<open>
  The tables of the schema, as lists of rows. The columns \<^verbatim>\<open>id\<close>, \<^verbatim>\<open>email\<close> and
  \<^verbatim>\<open>created_at\<close>, which no query of the backend writes or tests, are left out. \<open>now\<close> is
  the clock that \<^verbatim>\<open>NOW()\<close> and \<^verbatim>\<open>new Date()\<close> read.

  \<^verbatim>\<open>db.js\<close> hands each query to \<^verbatim>\<open>mysql2\<close>, which writes the parameters into the text
  of the query, and the server (MySQL 8.0, in its default strict mode) runs it. Of the
  two, this much is modelled:

  \<^item> the telemetry columns and the log's level and distance are \<^verbatim>\<open>INT\<close>: they take a finite
    number rounded to the nearest integer, a half away from zero, and reject one that
    does not fit 32 bits; an infinite number is written as the bare word \<^verbatim>\<open>Infinity\<close>,
    which the server rejects as an unknown column;
  \<^item> a text parameter is written as a quoted text, \<^verbatim>\<open>null\<close> as \<^verbatim>\<open>NULL\<close>, and an array as
    the list of its elements, an inner array in parentheses;
  \<^item> the log's \<^verbatim>\<open>rfid_uid\<close> is \<^verbatim>\<open>VARCHAR(50)\<close>: it rejects a longer text, unless only
    spaces are cut;
  \<^item> \<^verbatim>\<open>rfid_uid = ?\<close> compares under the collation \<^verbatim>\<open>utf8mb4_unicode_ci\<close> of the
    column, which ignores the case of letters and spaces at the end; it is modelled on
    ASCII texts (\<open>same_text\<close>), and the theorems on credential scans are about codes
    of ASCII letters and digits, where it is exact;
  \<^item> a log row must name a bin of \<^verbatim>\<open>bins\<close> (the foreign key).

  Not modelled: the comparison of \<^verbatim>\<open>rfid_uid\<close> with a number or a boolean and an
  object as a parameter (such a query gives \<open>Not_modelled\<close>, as does a value other than
  a number for an \<^verbatim>\<open>INT\<close> column, which no handler passes), and the conversions of the
  configuration columns, which hold the value the query was given. A lookup by \<^verbatim>\<open>bin_id\<close>
  is modelled for the spelling the row has.
\<close>

record user_row =
  rfid_uid :: string
  name :: string
  role :: string
  is_active :: bool

record bin_row =
  bin_id :: string
  bin_name :: json
  location :: json
  capacity_cm :: json
  mode :: json
  threshold_cm :: json
  is_online :: bool
  last_seen :: "nat option"
  current_level_percent :: int
  current_distance_cm :: int
  updated_at :: nat

record log_row =
  log_bin_id :: string
  log_event_type :: string
  log_rfid_uid :: "string option"
  log_user_name :: "string option"
  log_level_percent :: "int option"
  log_distance_cm :: "int option"
  log_success :: bool
  log_message :: "string option"
  log_timestamp :: nat

text \<open>
  An outbound payload is the object handed to \<^verbatim>\<open>JSON.stringify\<close>. Two host
  conversions stay symbolic: a template literal that interpolates a value (\<open>Template\<close>,
  its literal parts and substituted values in order) and \<^verbatim>\<open>new Date().toISOString()\<close>
  (\<open>ISOString\<close> of the clock reading).
\<close>

datatype piece = Lit string | Sub json

datatype field = Val json | Template "piece list" | ISOString nat

record outbound =
  topic :: string
  payload :: "(string \<times> field) list"
  qos :: nat
  retain :: bool

record backend =
  users :: "user_row list"
  bins :: "bin_row list"
  logs :: "log_row list"
  published :: "outbound list"
  now :: nat

text \<open>
  \<open>text_param paren v\<close> is what the parameter \<open>v\<close> stands for where the query
  expects one text: \<open>Some\<close> text, \<open>None\<close> for \<^verbatim>\<open>NULL\<close>, or the error of the server.
  \<open>paren\<close> holds inside the parentheses of an inner array. A list of one element is that
  element; an empty list leaves nothing where an expression must stand; a list of
  several is a syntax error at the top and a row of several columns in parentheses.
\<close>

fun text_param :: "bool \<Rightarrow> json \<Rightarrow> error + string option" where
  "text_param paren (JStr s) = Inr (Some s)"
| "text_param paren JNull = Inr None"
| "text_param paren JInfinity = Inl ER_BAD_FIELD_ERROR"
| "text_param paren JNegInfinity = Inl ER_BAD_FIELD_ERROR"
| "text_param paren (JArr []) = Inl ER_PARSE_ERROR"
| "text_param paren (JArr [x]) = text_param True x"
| "text_param paren (JArr (x # y # zs)) = Inl (if paren then ER_OPERAND_COLUMNS else ER_PARSE_ERROR)"
| "text_param paren (JNum q) = Inl Not_modelled"
| "text_param paren (JBool b) = Inl Not_modelled"
| "text_param paren (JObj kvs) = Inl Not_modelled"

text \<open>The collation on ASCII texts: the key of a text, and equality of keys.\<close>

definition to_upper :: "char \<Rightarrow> char" where
  "to_upper c =
     (if 97 \<le> (of_char c :: nat) \<and> (of_char c :: nat) \<le> 122 then char_of (of_char c - 32 :: nat)
      else c)"

definition strip_spaces :: "string \<Rightarrow> string" where
  "strip_spaces s = rev (dropWhile (\<lambda>c. c = CHR '' '') (rev s))"

definition collation_key :: "string \<Rightarrow> string" where
  "collation_key s = map to_upper (strip_spaces s)"

definition same_text :: "string \<Rightarrow> string \<Rightarrow> bool" where
  "same_text a b = (collation_key a = collation_key b)"

definition is_alnum :: "char \<Rightarrow> bool" where
  "is_alnum c =
     (let n = (of_char c :: nat) in
      (48 \<le> n \<and> n \<le> 57) \<or> (65 \<le> n \<and> n \<le> 90) \<or> (97 \<le> n \<and> n \<le> 122))"

text \<open>
  \<^verbatim>\<open>SELECT * FROM users WHERE rfid_uid = ? AND is_active = TRUE\<close>, and \<^verbatim>\<open>rows[0] || null\<close>.
  A comparison with \<^verbatim>\<open>NULL\<close> selects no row.
\<close>

definition getUserByRFID :: "json \<Rightarrow> backend \<Rightarrow> error + user_row option" where
  "getUserByRFID rfidUid st =
     (case text_param False rfidUid of
        Inl e \<Rightarrow> Inl e
      | Inr None \<Rightarrow> Inr None
      | Inr (Some s) \<Rightarrow> Inr (find (\<lambda>u. same_text (rfid_uid u) s \<and> is_active u) (users st)))"

definition getBinById :: "string \<Rightarrow> backend \<Rightarrow> bin_row option" where
  "getBinById binId st = find (\<lambda>b. bin_id b = binId) (bins st)"

text \<open>
  \<^verbatim>\<open>updated_at ... ON UPDATE CURRENT_TIMESTAMP\<close>: a row that an UPDATE changes gets the
  clock reading, a row it leaves as it was keeps its stamp.
\<close>

definition on_update :: "nat \<Rightarrow> bin_row \<Rightarrow> bin_row \<Rightarrow> bin_row" where
  "on_update t old new = (if new = old then old else new\<lparr>updated_at := t\<rparr>)"

definition update_where_bin_id :: "string \<Rightarrow> (bin_row \<Rightarrow> bin_row) \<Rightarrow> backend \<Rightarrow> backend" where
  "update_where_bin_id binId f st =
     st\<lparr>bins := map (\<lambda>b. if bin_id b = binId then on_update (now st) b (f b) else b) (bins st)\<rparr>"

definition updateBinStatus :: "string \<Rightarrow> bool \<Rightarrow> backend \<Rightarrow> backend" where
  "updateBinStatus binId isOnline st =
     update_where_bin_id binId
       (\<lambda>b. b\<lparr>is_online := isOnline, last_seen := Some (now st)\<rparr>) st"

text \<open>The numbers of the host, and the value an \<^verbatim>\<open>INT\<close> column takes from a finite one.\<close>

fun is_number :: "json \<Rightarrow> bool" where
  "is_number (JNum q) = True"
| "is_number JInfinity = True"
| "is_number JNegInfinity = True"
| "is_number v = False"

fun is_infinite :: "json \<Rightarrow> bool" where
  "is_infinite JInfinity = True"
| "is_infinite JNegInfinity = True"
| "is_infinite v = False"

definition round_half_away :: "rat \<Rightarrow> int" where
  "round_half_away q = (if 0 \<le> q then \<lfloor>q + 1 / 2\<rfloor> else - \<lfloor>- q + 1 / 2\<rfloor>)"

definition int_column :: "rat \<Rightarrow> error + int" where
  "int_column q =
     (if - 2147483648 \<le> round_half_away q \<and> round_half_away q \<le> 2147483647
      then Inr (round_half_away q) else Inl ER_WARN_DATA_OUT_OF_RANGE)"

fun int_param :: "json \<Rightarrow> error + int" where
  "int_param (JNum q) = int_column q"
| "int_param JInfinity = Inl ER_BAD_FIELD_ERROR"
| "int_param JNegInfinity = Inl ER_BAD_FIELD_ERROR"
| "int_param v = Inl Not_modelled"

text \<open>
  \<^verbatim>\<open>updateBinLevel\<close>: one UPDATE of the row of the bin. The server rejects the text of the
  query when a parameter is infinite; it converts the numbers when it assigns them to a
  row, so a query that matches no row changes nothing and reports no error.
\<close>

definition updateBinLevel :: "string \<Rightarrow> json \<Rightarrow> json \<Rightarrow> backend \<Rightarrow> error + backend" where
  "updateBinLevel binId levelPercent distanceCm st =
     (if is_infinite levelPercent \<or> is_infinite distanceCm then Inl ER_BAD_FIELD_ERROR
      else if binId \<notin> set (map bin_id (bins st)) then Inr st
      else
        (case int_param levelPercent of
           Inl e \<Rightarrow> Inl e
         | Inr l \<Rightarrow>
             (case int_param distanceCm of
                Inl e \<Rightarrow> Inl e
              | Inr c \<Rightarrow>
                  Inr (update_where_bin_id binId
                         (\<lambda>b. b\<lparr>current_level_percent := l, current_distance_cm := c,
                                last_seen := Some (now st)\<rparr>) st))))"

definition allowedFields :: "string list" where
  "allowedFields = [''mode'', ''threshold_cm'', ''capacity_cm'', ''name'', ''location'']"

text \<open>One assignment \<^verbatim>\<open>key = ?\<close> of the SET clause, for a key of the allow-list.\<close>

definition set_column :: "bin_row \<Rightarrow> string \<times> json \<Rightarrow> bin_row" where
  "set_column b kv =
     (let k = fst kv; v = snd kv in
      if k = ''mode'' then b\<lparr>mode := v\<rparr>
      else if k = ''threshold_cm'' then b\<lparr>threshold_cm := v\<rparr>
      else if k = ''capacity_cm'' then b\<lparr>capacity_cm := v\<rparr>
      else if k = ''name'' then b\<lparr>bin_name := v\<rparr>
      else if k = ''location'' then b\<lparr>location := v\<rparr>
      else b)"

text \<open>
  \<^verbatim>\<open>updateBinConfig\<close> keeps the entries whose key is allowed, throws when none is left,
  and otherwise runs one UPDATE that ends with \<^verbatim>\<open>updated_at = NOW()\<close>; the server
  rejects the query when one of the values is infinite. It returns \<^verbatim>\<open>affectedRows > 0\<close>.
\<close>

definition updateBinConfig ::
  "string \<Rightarrow> (string \<times> json) list \<Rightarrow> backend \<Rightarrow> error + (bool \<times> backend)" where
  "updateBinConfig binId updates st =
     (let setClause = filter (\<lambda>kv. fst kv \<in> set allowedFields) updates in
      if length setClause = 0 then Inl No_valid_fields
      else if list_ex (\<lambda>kv. is_infinite (snd kv)) setClause then Inl ER_BAD_FIELD_ERROR
      else Inr (binId \<in> set (map bin_id (bins st)),
                st\<lparr>bins := map (\<lambda>b. if bin_id b = binId
                                       then (foldl set_column b setClause)\<lparr>updated_at := now st\<rparr>
                                       else b) (bins st)\<rparr>))"

text \<open>The \<^verbatim>\<open>data\<close> argument of \<^verbatim>\<open>logEvent\<close>; \<open>None\<close> is a property left out.\<close>

record log_data =
  rfidUid :: "json option"
  userName :: "string option"
  levelPercent :: "json option"
  distanceCm :: "json option"
  success :: "bool option"
  message :: "string option"

definition no_data :: log_data where
  "no_data = \<lparr>rfidUid = None, userName = None, levelPercent = None, distanceCm = None,
               success = None, message = None\<rparr>"

text \<open>
  What the columns of a new log row take: \<^verbatim>\<open>NULL\<close> for a property left out. The number
  of characters of a text is the number of its bytes that do not continue a UTF-8
  sequence. An array of several elements adds values to the row, more than it has columns.
\<close>

definition char_length :: "string \<Rightarrow> nat" where
  "char_length s =
     length (filter (\<lambda>c. \<not> (128 \<le> (of_char c :: nat) \<and> (of_char c :: nat) < 192)) s)"

definition varchar :: "nat \<Rightarrow> string \<Rightarrow> error + string" where
  "varchar n s =
     (if char_length s \<le> n then Inr s
      else if char_length (strip_spaces s) \<le> n
      then Inr (strip_spaces s @ replicate (n - char_length (strip_spaces s)) (CHR '' ''))
      else Inl ER_DATA_TOO_LONG)"

definition insert_text :: "nat \<Rightarrow> json option \<Rightarrow> error + string option" where
  "insert_text n v =
     (case v of
        None \<Rightarrow> Inr None
      | Some (JArr (x # y # zs)) \<Rightarrow> Inl ER_WRONG_VALUE_COUNT_ON_ROW
      | Some p \<Rightarrow>
          (case text_param False p of
             Inl e \<Rightarrow> Inl e
           | Inr None \<Rightarrow> Inr None
           | Inr (Some s) \<Rightarrow> (case varchar n s of Inl e \<Rightarrow> Inl e | Inr t \<Rightarrow> Inr (Some t))))"

definition insert_int :: "json option \<Rightarrow> error + int option" where
  "insert_int v =
     (case v of
        None \<Rightarrow> Inr None
      | Some p \<Rightarrow> (case int_param p of Inl e \<Rightarrow> Inl e | Inr n \<Rightarrow> Inr (Some n)))"

text \<open>
  \<^verbatim>\<open>logEvent\<close> inserts one row into \<^verbatim>\<open>logs\<close>. The table has
  \<^verbatim>\<open>FOREIGN KEY (bin_id) REFERENCES bins(bin_id)\<close>: for a bin that is not in \<^verbatim>\<open>bins\<close>
  the INSERT fails and the query throws. The holder's name comes from a row of \<^verbatim>\<open>users\<close>
  and the messages are short: they fit their columns.
\<close>

definition logEvent :: "string \<Rightarrow> string \<Rightarrow> log_data \<Rightarrow> backend \<Rightarrow> error + backend" where
  "logEvent binId eventType data st =
     (case insert_text 50 (rfidUid data) of
        Inl e \<Rightarrow> Inl e
      | Inr uid \<Rightarrow>
          (case insert_int (levelPercent data) of
             Inl e \<Rightarrow> Inl e
           | Inr level \<Rightarrow>
               (case insert_int (distanceCm data) of
                  Inl e \<Rightarrow> Inl e
                | Inr cm \<Rightarrow>
                    if binId \<in> set (map bin_id (bins st)) then
                      Inr (st\<lparr>logs := logs st @
                             [\<lparr>log_bin_id = binId, log_event_type = eventType,
                               log_rfid_uid = uid, log_user_name = userName data,
                               log_level_percent = level, log_distance_cm = cm,
                               log_success = (case success data of None \<Rightarrow> True | Some b \<Rightarrow> b),
                               log_message = message data, log_timestamp = now st\<rparr>]\<rparr>)
                    else Inl ER_NO_REFERENCED_ROW)))"

section \<open>The backend's MQTT client (\<^verbatim>\<open>backend/src/mqttClient.js\<close>)\<close>

text \<open>\<^verbatim>\<open>client.publish(topic, payload, { qos, retain })\<close>; \<open>published\<close> keeps the calls in order.\<close>

definition publish :: "string \<Rightarrow> (string \<times> field) list \<Rightarrow> nat \<Rightarrow> bool \<Rightarrow> backend \<Rightarrow> backend" where
  "publish tp pl q r st =
     st\<lparr>published := published st @ [\<lparr>topic = tp, payload = pl, qos = q, retain = r\<rparr>]\<rparr>"

definition publishCommand :: "string \<Rightarrow> (string \<times> field) list \<Rightarrow> backend \<Rightarrow> backend" where
  "publishCommand binId command st = publish (''smartbin/'' @ binId @ ''/cmd'') command 1 False st"

definition publishAlert :: "string \<Rightarrow> (string \<times> field) list \<Rightarrow> backend \<Rightarrow> backend" where
  "publishAlert binId alert st = publish (''smartbin/'' @ binId @ ''/alert'') alert 1 False st"

definition publishConfig :: "string \<Rightarrow> bin_row \<Rightarrow> backend \<Rightarrow> backend" where
  "publishConfig binId config st =
     publish (''smartbin/'' @ binId @ ''/config'')
       [(''mode'', Val (mode config)), (''threshold'', Val (threshold_cm config)),
        (''ts'', ISOString (now st))] 1 True st"

text \<open>
  A handler returns the store it leaves, \<open>Inr\<close> when it returns and \<open>Inl\<close> with the
  error when it throws (what it wrote before the throw stays written).
  \<open>number_ge v r\<close> is the comparison \<^verbatim>\<open>v >= r\<close> of the host on a number \<open>v\<close>.
\<close>

fun number_ge :: "json \<Rightarrow> rat \<Rightarrow> bool" where
  "number_ge (JNum q) r = (r \<le> q)"
| "number_ge JInfinity r = True"
| "number_ge v r = False"

definition handleLevelData :: "string \<Rightarrow> json \<Rightarrow> backend \<Rightarrow> (error \<times> backend) + backend" where
  "handleLevelData binId pl st =
     (if pl = JNull then Inl (TypeError, st)
      else
        (case (get_prop ''level'' pl, get_prop ''cm'' pl) of
           (Some level, Some cm) \<Rightarrow>
             if \<not> is_number level \<or> \<not> is_number cm then Inr st
             else
               (case updateBinLevel binId level cm st of
                  Inl e \<Rightarrow> Inl (e, st)
                | Inr st1 \<Rightarrow>
                    if number_ge level 80 then
                      (case logEvent binId ''level_update''
                              (no_data\<lparr>levelPercent := Some level, distanceCm := Some cm,
                                       message := Some ''Bin is nearly full!''\<rparr>) st1 of
                         Inl e \<Rightarrow> Inl (e, st1)
                       | Inr st2 \<Rightarrow>
                           Inr (publishAlert binId
                                  [(''type'', Val (JStr ''full_warning'')),
                                   (''level'', Val level),
                                   (''message'', Template [Lit (''Bin '' @ binId @ '' is ''),
                                                           Sub level, Lit ''% full'']),
                                   (''ts'', ISOString (now st2))] st2))
                    else Inr st1)
         | _ \<Rightarrow> Inr st))"

definition handleRFIDCheck :: "string \<Rightarrow> json \<Rightarrow> backend \<Rightarrow> (error \<times> backend) + backend" where
  "handleRFIDCheck binId pl st =
     (if pl = JNull then Inl (TypeError, st)
      else
        (case get_prop ''uid'' pl of
           None \<Rightarrow> Inr st
         | Some uid \<Rightarrow>
             if \<not> truthy uid then Inr st
             else
               (case getBinById binId st of
                  None \<Rightarrow> Inr st
                | Some bin \<Rightarrow>
                    (case getUserByRFID uid st of
                       Inl e \<Rightarrow> Inl (e, st)
                     | Inr (Some user) \<Rightarrow>
                         (case logEvent binId ''rfid_scan''
                                 (no_data\<lparr>rfidUid := Some uid, userName := Some (name user),
                                          success := Some True,
                                          message := Some (''Access granted for '' @ name user)\<rparr>) st of
                            Inl e \<Rightarrow> Inl (e, st)
                          | Inr st1 \<Rightarrow>
                              Inr (publishCommand binId
                                     [(''action'', Val (JStr ''open'')),
                                      (''reason'', Val (JStr ''rfid_authorized'')),
                                      (''user'', Val (JStr (name user))),
                                      (''ts'', ISOString (now st1))] st1))
                     | Inr None \<Rightarrow>
                         (case logEvent binId ''rfid_scan''
                                 (no_data\<lparr>rfidUid := Some uid, success := Some False,
                                          message := Some ''Access denied: Unknown RFID''\<rparr>) st of
                            Inl e \<Rightarrow> Inl (e, st)
                          | Inr st1 \<Rightarrow>
                              Inr (publishAlert binId
                                     [(''type'', Val (JStr ''unauthorized_access'')),
                                      (''uid'', Val uid),
                                      (''message'', Template [Lit ''Unauthorized RFID attempt: '',
                                                              Sub uid]),
                                      (''ts'', ISOString (now st1))] st1))))))"

definition handleStatusUpdate :: "string \<Rightarrow> string \<Rightarrow> backend \<Rightarrow> (error \<times> backend) + backend" where
  "handleStatusUpdate binId status st =
     (let isOnline = (status = ''online'');
          st1 = updateBinStatus binId isOnline st
      in case logEvent binId ''alert''
                (no_data\<lparr>message := Some (''Device '' @
                                             (if isOnline then ''connected'' else ''disconnected'')),
                         success := Some isOnline\<rparr>) st1 of
           Inl e \<Rightarrow> Inl (e, st1)
         | Inr st2 \<Rightarrow> Inr st2)"

text \<open>
  \<^verbatim>\<open>handleMessage\<close> splits the topic, parses the payload and routes by the third
  segment. Its \<^verbatim>\<open>catch\<close> only prints the error: the store stays as the handler left it.
\<close>

definition caught :: "(error \<times> backend) + backend \<Rightarrow> backend" where
  "caught r = (case r of Inl (e, st) \<Rightarrow> st | Inr st \<Rightarrow> st)"

definition handleMessage :: "string \<Rightarrow> string \<Rightarrow> backend \<Rightarrow> backend" where
  "handleMessage tp msg st =
     (let parts = String_split (CHR ''/'') tp in
      if length parts < 3 then st
      else
        (let binId = parts ! 1; messageType = parts ! 2 in
         case JSON_parse msg of
           Inl e \<Rightarrow> st
         | Inr pl \<Rightarrow>
             if messageType = ''data'' then
               (if 3 < length parts \<and> parts ! 3 = ''level''
                then caught (handleLevelData binId pl st) else st)
             else if messageType = ''rfid_check'' then caught (handleRFIDCheck binId pl st)
             else if messageType = ''status'' then caught (handleStatusUpdate binId msg st)
             else st))"

section \<open>The configuration route (\<^verbatim>\<open>PUT /api/bins/:id/config\<close>)\<close>

text \<open>
  The route reads the five configuration fields from the request body, builds
  \<^verbatim>\<open>updates\<close> from those that were given (\<^verbatim>\<open>mode\<close>, \<^verbatim>\<open>name\<close> and \<^verbatim>\<open>location\<close> when
  truthy, the two lengths when not \<^verbatim>\<open>undefined\<close>), stores them, publishes the stored row
  as the device's configuration and logs the change. It answers with the HTTP status;
  every throw inside is answered with 500.
\<close>

definition is_truthy :: "json option \<Rightarrow> bool" where
  "is_truthy v = (case v of None \<Rightarrow> False | Some x \<Rightarrow> truthy x)"

definition given :: "string \<Rightarrow> json option \<Rightarrow> (string \<times> json) list" where
  "given k v = (case v of None \<Rightarrow> [] | Some x \<Rightarrow> [(k, x)])"

definition given_truthy :: "string \<Rightarrow> json option \<Rightarrow> (string \<times> json) list" where
  "given_truthy k v = (if is_truthy v then given k v else [])"

definition put_bins_config :: "string \<Rightarrow> json \<Rightarrow> backend \<Rightarrow> nat \<times> backend" where
  "put_bins_config binId body st =
     (if body = JNull then (500, st)
      else
        (let mode' = get_prop ''mode'' body;
             threshold_cm' = get_prop ''threshold_cm'' body;
             capacity_cm' = get_prop ''capacity_cm'' body;
             name' = get_prop ''name'' body;
             location' = get_prop ''location'' body
         in case getBinById binId st of
              None \<Rightarrow> (404, st)
            | Some bin \<Rightarrow>
                if is_truthy mode'
                   \<and> mode' \<notin> set [Some (JStr ''AUTO''), Some (JStr ''AUTH'')]
                then (400, st)
                else
                  (let updates = given_truthy ''mode'' mode' @ given ''threshold_cm'' threshold_cm'
                                 @ given ''capacity_cm'' capacity_cm' @ given_truthy ''name'' name'
                                 @ given_truthy ''location'' location'
                   in case updateBinConfig binId updates st of
                        Inl e \<Rightarrow> (500, st)
                      | Inr (affected, st1) \<Rightarrow>
                          (case getBinById binId st1 of
                             None \<Rightarrow> (500, st1)
                           | Some updatedBin \<Rightarrow>
                               (let st2 = publishConfig binId updatedBin st1 in
                                case logEvent binId ''config_change''
                                        (no_data\<lparr>message := Some ''Configuration updated'',
                                                 success := Some True\<rparr>) st2 of
                                  Inl e \<Rightarrow> (500, st2)
                                | Inr st3 \<Rightarrow> (200, st3))))))"

text \<open>
  \<^verbatim>\<open>POST /api/bins/:id/command\<close>: the other route that publishes. It sends a manual
  open or close command and logs it.
\<close>

definition post_bins_command :: "string \<Rightarrow> json \<Rightarrow> backend \<Rightarrow> nat \<times> backend" where
  "post_bins_command binId body st =
     (if body = JNull then (500, st)
      else
        (case get_prop ''action'' body of
           Some (JStr action) \<Rightarrow>
             if action \<notin> set [''open'', ''close''] then (400, st)
             else
               (case getBinById binId st of
                  None \<Rightarrow> (404, st)
                | Some bin \<Rightarrow>
                    (let st1 = publishCommand binId
                                 [(''action'', Val (JStr action)),
                                  (''reason'', Val (JStr ''manual_control'')),
                                  (''user'', Val (JStr ''admin'')),
                                  (''ts'', ISOString (now st))] st
                     in case logEvent binId (if action = ''open'' then ''lid_open'' else ''lid_close'')
                               (no_data\<lparr>message := Some (''Manual '' @ action),
                                        success := Some True\<rparr>) st1 of
                          Inl e \<Rightarrow> (500, st1)
                        | Inr st2 \<Rightarrow> (200, st2)))
         | _ \<Rightarrow> (400, st)))"

section \<open>The device firmware (\<^verbatim>\<open>esp32/smart_bin_firmware.ino\<close>)\<close>

text \<open>
  The firmware's globals, the hardware it drives and the MQTT client are one record.
  \<open>millis\<close> is the 32-bit millisecond clock (\<^verbatim>\<open>unsigned long\<close> on the ESP32, so the
  differences the firmware takes wrap around); \<^verbatim>\<open>delay\<close> advances it. \<open>sent\<close> keeps the
  calls of \<^verbatim>\<open>mqttClient.publish(topic, payload, retained)\<close> in order, and \<open>will\<close> the last
  will registered by \<^verbatim>\<open>connect\<close>. \<open>servo_angle\<close> is the angle last written to the servo.
\<close>

datatype device_payload = Text string | Json "(string \<times> json) list"

record device_msg =
  dtopic :: string
  dpayload :: device_payload
  retained :: bool

record device =
  BIN_MODE :: string
  PROXIMITY_THRESHOLD_CM :: int
  isLidOpen :: bool
  lidOpenTime :: "32 word"
  lastTelemetryTime :: "32 word"
  lastProximityCheck :: "32 word"
  currentLevelPercent :: int
  currentDistanceCm :: int
  millis :: "32 word"
  servo_attached :: bool
  servo_angle :: int
  LED_GREEN :: bool
  LED_RED :: bool
  mqtt_connected :: bool
  will :: "device_msg option"
  subscribed :: "string list"
  sent :: "device_msg list"

definition BIN_ID :: string where "BIN_ID = ''BIN_01''"
definition TOPIC_LEVEL :: string where "TOPIC_LEVEL = ''smartbin/'' @ BIN_ID @ ''/data/level''"
definition TOPIC_RFID :: string where "TOPIC_RFID = ''smartbin/'' @ BIN_ID @ ''/rfid_check''"
definition TOPIC_CMD :: string where "TOPIC_CMD = ''smartbin/'' @ BIN_ID @ ''/cmd''"
definition TOPIC_CONFIG :: string where "TOPIC_CONFIG = ''smartbin/'' @ BIN_ID @ ''/config''"
definition TOPIC_STATUS :: string where "TOPIC_STATUS = ''smartbin/'' @ BIN_ID @ ''/status''"

definition BIN_HEIGHT_CM :: int where "BIN_HEIGHT_CM = 30"
definition LID_AUTO_CLOSE_MS :: "32 word" where "LID_AUTO_CLOSE_MS = 7000"
definition TELEMETRY_INTERVAL_MS :: "32 word" where "TELEMETRY_INTERVAL_MS = 10000"
definition PROXIMITY_DEBOUNCE_MS :: "32 word" where "PROXIMITY_DEBOUNCE_MS = 2000"

text \<open>The globals as they are initialised, before \<^verbatim>\<open>setup()\<close> runs.\<close>

definition boot :: device where
  "boot = \<lparr>BIN_MODE = ''AUTO'', PROXIMITY_THRESHOLD_CM = 50, isLidOpen = False,
           lidOpenTime = 0, lastTelemetryTime = 0, lastProximityCheck = 0,
           currentLevelPercent = 0, currentDistanceCm = 0, millis = 0,
           servo_attached = False, servo_angle = 0, LED_GREEN = False, LED_RED = False,
           mqtt_connected = False, will = None, subscribed = [], sent = []\<rparr>"

definition delay :: "nat \<Rightarrow> device \<Rightarrow> device" where
  "delay ms st = st\<lparr>millis := millis st + of_nat ms\<rparr>"

definition mqtt_publish :: "string \<Rightarrow> device_payload \<Rightarrow> bool \<Rightarrow> device \<Rightarrow> device" where
  "mqtt_publish tp pl r st = st\<lparr>sent := sent st @ [\<lparr>dtopic = tp, dpayload = pl, retained = r\<rparr>]\<rparr>"

text \<open>C's integer division truncates towards zero; \<^verbatim>\<open>constrain\<close> clamps.\<close>

definition c_div :: "int \<Rightarrow> int \<Rightarrow> int" where
  "c_div a b = (if (a < 0) = (b < 0) then \<bar>a\<bar> div \<bar>b\<bar> else - (\<bar>a\<bar> div \<bar>b\<bar>))"

definition constrain :: "int \<Rightarrow> int \<Rightarrow> int \<Rightarrow> int" where
  "constrain x lo hi = (if x < lo then lo else if x > hi then hi else x)"

text \<open>\<^verbatim>\<open>sprintf(timestamp, "2025-11-18T%02lu:%02lu:%02luZ", ...)\<close> of the uptime in seconds.\<close>

definition two_digits :: "nat \<Rightarrow> string" where
  "two_digits n = [char_of (48 + n div 10), char_of (48 + n mod 10)]"

definition timestamp :: "32 word \<Rightarrow> string" where
  "timestamp ms =
     (let seconds = unat ms div 1000 in
      ''2025-11-18T'' @ two_digits ((seconds div 3600) mod 24) @ '':''
        @ two_digits ((seconds div 60) mod 60) @ '':'' @ two_digits (seconds mod 60) @ ''Z'')"

text \<open>
  \<^verbatim>\<open>publishLevelData\<close>; \<open>distanceCm'\<close> is what \<^verbatim>\<open>measureDistance\<close> returned for the
  level sensor (the echo timing and its floating-point scaling are the sensor's side).
\<close>

definition publishLevelData :: "int \<Rightarrow> device \<Rightarrow> device" where
  "publishLevelData distanceCm' st =
     (if distanceCm' \<le> 0 \<or> distanceCm' > BIN_HEIGHT_CM then st
      else
        (let levelPercent = constrain (c_div ((BIN_HEIGHT_CM - distanceCm') * 100) BIN_HEIGHT_CM) 0 100;
             st1 = st\<lparr>currentLevelPercent := levelPercent, currentDistanceCm := distanceCm'\<rparr>
         in mqtt_publish TOPIC_LEVEL
              (Json [(''level'', JNum (of_int levelPercent)), (''cm'', JNum (of_int distanceCm')),
                     (''ts'', JStr (timestamp (millis st1)))]) False st1))"

text \<open>
  \<^verbatim>\<open>openLid\<close> and \<^verbatim>\<open>closeLid\<close>. Neither tests what \<^verbatim>\<open>attach\<close> returns.
\<close>

definition reattach :: "device \<Rightarrow> device" where
  "reattach st = (if \<not> servo_attached st then delay 50 (st\<lparr>servo_attached := True\<rparr>) else st)"

definition openLid :: "string \<Rightarrow> device \<Rightarrow> device" where
  "openLid reason st =
     (if isLidOpen st then st
      else
        (let st1 = reattach st;
             st2 = delay 600 (st1\<lparr>servo_angle := 120\<rparr>);
             st3 = st2\<lparr>servo_attached := False\<rparr>
         in st3\<lparr>isLidOpen := True, lidOpenTime := millis st3, LED_GREEN := True\<rparr>))"

definition closeLid :: "device \<Rightarrow> device" where
  "closeLid st =
     (let st1 = reattach st;
          st2 = delay 600 (st1\<lparr>servo_angle := 0\<rparr>);
          st3 = st2\<lparr>servo_attached := False\<rparr>
      in st3\<lparr>isLidOpen := False, LED_GREEN := False\<rparr>)"

text \<open>
  \<^verbatim>\<open>checkProximity\<close>; \<open>distance\<close> is what \<^verbatim>\<open>measureDistance\<close> returns for the proximity
  sensor (0 when no echo came back before the timeout).
\<close>

definition checkProximity :: "int \<Rightarrow> device \<Rightarrow> device" where
  "checkProximity distance st =
     (if millis st - lastProximityCheck st < PROXIMITY_DEBOUNCE_MS then st
      else if distance > 0 \<and> distance \<le> PROXIMITY_THRESHOLD_CM st then
        (let st1 = openLid ''proximity_trigger'' st in st1\<lparr>lastProximityCheck := millis st1\<rparr>)
      else st)"

text \<open>\<^verbatim>\<open>getRFIDString\<close>: two upper-case hexadecimal digits for each byte of the UID.\<close>

definition hex_digit :: "nat \<Rightarrow> char" where
  "hex_digit n = (if n < 10 then char_of (48 + n) else char_of (55 + n))"

definition getRFIDString :: "8 word list \<Rightarrow> string" where
  "getRFIDString buffer = concat (map (\<lambda>b. [hex_digit (unat b div 16), hex_digit (unat b mod 16)]) buffer)"

text \<open>
  \<^verbatim>\<open>checkRFID\<close>; \<open>picc\<close> is the UID of a new card the reader presents, if any.
\<close>

definition checkRFID :: "8 word list option \<Rightarrow> device \<Rightarrow> device" where
  "checkRFID picc st =
     (case picc of
        None \<Rightarrow> st
      | Some uidByte \<Rightarrow>
          (let uid = getRFIDString uidByte;
               st1 = mqtt_publish TOPIC_RFID
                       (Json [(''uid'', JStr uid), (''ts'', JStr (timestamp (millis st)))]) False st;
               st2 = delay 200 (st1\<lparr>LED_GREEN := True\<rparr>)
           in st2\<lparr>LED_GREEN := False\<rparr>))"

text \<open>
  A parsed document, as the firmware reads it: \<open>doc_action\<close> is \<^verbatim>\<open>doc["action"] | ""\<close>,
  \<open>doc_reason\<close> is \<^verbatim>\<open>doc["reason"] | "unknown"\<close>, \<open>doc_mode\<close> is
  \<^verbatim>\<open>doc["mode"].as<String>()\<close> when \<^verbatim>\<open>doc.containsKey("mode")\<close>, and \<open>doc_threshold\<close> is
  \<^verbatim>\<open>doc["threshold"]\<close> read as an \<^verbatim>\<open>int\<close> when \<^verbatim>\<open>doc.containsKey("threshold")\<close>.
\<close>

record JsonDocument =
  doc_action :: string
  doc_reason :: string
  doc_mode :: "string option"
  doc_threshold :: "int option"

definition handleCommand :: "JsonDocument \<Rightarrow> device \<Rightarrow> device" where
  "handleCommand doc st =
     (let action = doc_action doc; reason = doc_reason doc in
      if action = ''open'' then openLid reason st
      else if action = ''close'' then closeLid st
      else st)"

fun blink :: "nat \<Rightarrow> device \<Rightarrow> device" where
  "blink 0 st = st"
| "blink (Suc n) st = blink n (delay 100 ((delay 100 (st\<lparr>LED_RED := True\<rparr>))\<lparr>LED_RED := False\<rparr>))"

definition handleConfig :: "JsonDocument \<Rightarrow> device \<Rightarrow> device" where
  "handleConfig doc st =
     (let st1 = (case doc_mode doc of
                   None \<Rightarrow> st
                 | Some newMode \<Rightarrow>
                     if newMode = ''AUTO'' \<or> newMode = ''AUTH'' then st\<lparr>BIN_MODE := newMode\<rparr>
                     else st);
          st2 = (case doc_threshold doc of
                   None \<Rightarrow> st1
                 | Some t \<Rightarrow> st1\<lparr>PROXIMITY_THRESHOLD_CM := t\<rparr>)
      in blink 3 st2)"

definition ends_with :: "string \<Rightarrow> string \<Rightarrow> bool" where
  "ends_with suffix s = (length suffix \<le> length s \<and> drop (length s - length suffix) s = suffix)"

text \<open>
  \<^verbatim>\<open>mqttCallback\<close>; \<open>doc\<close> is \<open>None\<close> when \<^verbatim>\<open>deserializeJson\<close> reports an error.
\<close>

definition mqttCallback :: "string \<Rightarrow> JsonDocument option \<Rightarrow> device \<Rightarrow> device" where
  "mqttCallback tp doc st =
     (case doc of
        None \<Rightarrow> st
      | Some d \<Rightarrow>
          if ends_with ''/cmd'' tp then handleCommand d st
          else if ends_with ''/config'' tp then handleConfig d st
          else st)"

text \<open>
  \<^verbatim>\<open>reconnectMQTT\<close> loops until the client is connected. \<open>attempts\<close> are the outcomes of
  the successive \<^verbatim>\<open>connect\<close> calls; the result is \<open>None\<close> when the loop is still running
  after the last of them.
\<close>

fun reconnectMQTT :: "bool list \<Rightarrow> device \<Rightarrow> device option" where
  "reconnectMQTT [] st = (if mqtt_connected st then Some st else None)"
| "reconnectMQTT (ok # attempts) st =
     (if mqtt_connected st then Some st
      else if ok then
        (let st1 = st\<lparr>mqtt_connected := True,
                      will := Some \<lparr>dtopic = TOPIC_STATUS, dpayload = Text ''offline'',
                                    retained = False\<rparr>\<rparr>;
             st2 = mqtt_publish TOPIC_STATUS (Text ''online'') True st1;
             st3 = st2\<lparr>subscribed := subscribed st2 @ [TOPIC_CMD, TOPIC_CONFIG]\<rparr>
         in reconnectMQTT attempts (st3\<lparr>LED_GREEN := True\<rparr>))
      else
        reconnectMQTT attempts ((delay 5000 (st\<lparr>LED_RED := True\<rparr>))\<lparr>LED_RED := False\<rparr>))"

text \<open>
  One pass of \<^verbatim>\<open>loop()\<close>. The environment of a pass: the time that went by since the
  last one outside the modelled delays, the outcomes of the connection attempts, the
  messages \<^verbatim>\<open>mqttClient.loop()\<close> delivers, and what the sensors and the card reader
  return. The over-the-air update hooks are not modelled.
\<close>

record env =
  elapsed :: "32 word"
  connect_results :: "bool list"
  inbox :: "(string \<times> JsonDocument option) list"
  level_reading :: int
  proximity_reading :: int
  card_present :: "8 word list option"

text \<open>The blocks of \<^verbatim>\<open>loop()\<close>, in the order they run.\<close>

definition mqttClient_loop :: "(string \<times> JsonDocument option) list \<Rightarrow> device \<Rightarrow> device" where
  "mqttClient_loop msgs st = foldl (\<lambda>s m. mqttCallback (fst m) (snd m) s) st msgs"

definition loop_telemetry :: "env \<Rightarrow> device \<Rightarrow> device" where
  "loop_telemetry e st =
     (if millis st - lastTelemetryTime st \<ge> TELEMETRY_INTERVAL_MS
      then (let s = publishLevelData (level_reading e) st in s\<lparr>lastTelemetryTime := millis s\<rparr>)
      else st)"

definition loop_proximity :: "env \<Rightarrow> device \<Rightarrow> device" where
  "loop_proximity e st =
     (if BIN_MODE st = ''AUTO'' \<and> \<not> isLidOpen st
      then checkProximity (proximity_reading e) st else st)"

definition loop_rfid :: "env \<Rightarrow> device \<Rightarrow> device" where
  "loop_rfid e st =
     (if BIN_MODE st = ''AUTH'' \<and> \<not> isLidOpen st
      then checkRFID (card_present e) st else st)"

definition loop_auto_close :: "device \<Rightarrow> device" where
  "loop_auto_close st =
     (if isLidOpen st \<and> millis st - lidOpenTime st \<ge> LID_AUTO_CLOSE_MS
      then closeLid st else st)"

definition loop :: "env \<Rightarrow> device \<Rightarrow> device option" where
  "loop e st0 =
     (let st = st0\<lparr>millis := millis st0 + elapsed e\<rparr> in
      case (if \<not> mqtt_connected st then reconnectMQTT (connect_results e) st else Some st) of
        None \<Rightarrow> None
      | Some st1 \<Rightarrow>
          Some (delay 100
                 (loop_auto_close
                   (loop_rfid e
                     (loop_proximity e
                       (loop_telemetry e
                         (mqttClient_loop (inbox e) st1)))))))"


section \<open>Sample data\<close>

text \<open>The rows that \<^verbatim>\<open>schema.sql\<close> inserts, as a store with no log and nothing published.\<close>

definition demo_store :: backend where
  "demo_store =
     \<lparr>users =
        [\<lparr>rfid_uid = ''04A1B2C3D4E5F6'', name = ''Admin User'', role = ''admin'', is_active = True\<rparr>,
         \<lparr>rfid_uid = ''A1B2C3D4'', name = ''John Doe'', role = ''user'', is_active = True\<rparr>,
         \<lparr>rfid_uid = ''E5F6A7B8'', name = ''Jane Smith'', role = ''user'', is_active = True\<rparr>],
      bins =
        [\<lparr>bin_id = ''BIN_01'', bin_name = JStr ''Main Entrance Bin'',
          location = JStr ''Building A - Floor 1'', capacity_cm = JNum 200,
          mode = JStr ''AUTO'', threshold_cm = JNum 50, is_online = False, last_seen = None,
          current_level_percent = 0, current_distance_cm = 0, updated_at = 0\<rparr>,
         \<lparr>bin_id = ''BIN_02'', bin_name = JStr ''Cafeteria Bin'',
          location = JStr ''Building B - Cafeteria'', capacity_cm = JNum 180,
          mode = JStr ''AUTH'', threshold_cm = JNum 50, is_online = False, last_seen = None,
          current_level_percent = 0, current_distance_cm = 0, updated_at = 0\<rparr>],
      logs = [], published = [], now = 1000\<rparr>"

section \<open>Dispatch\<close>

lemma String_split_no_sep: "sep \<notin> set xs \<Longrightarrow> String_split sep xs = [xs]"
  by (induction xs) auto

lemma String_split_segment:
  "sep \<notin> set xs \<Longrightarrow> String_split sep (xs @ sep # ys) = xs # String_split sep ys"
  by (induction xs) auto

lemma topic_parts:
  assumes "CHR ''/'' \<notin> set binId"
  shows "String_split (CHR ''/'') (''smartbin/'' @ binId @ CHR ''/'' # rest)
         = ''smartbin'' # binId # String_split (CHR ''/'') rest"
proof -
  have e: "''smartbin/'' @ binId @ CHR ''/'' # rest
           = ''smartbin'' @ CHR ''/'' # (binId @ CHR ''/'' # rest)"
    by simp
  have a: "String_split (CHR ''/'') (''smartbin'' @ CHR ''/'' # (binId @ CHR ''/'' # rest))
           = ''smartbin'' # String_split (CHR ''/'') (binId @ CHR ''/'' # rest)"
    by (rule String_split_segment) simp
  have b: "String_split (CHR ''/'') (binId @ CHR ''/'' # rest)
           = binId # String_split (CHR ''/'') rest"
    by (rule String_split_segment [OF assms])
  show ?thesis
    by (simp only: e a b)
qed

lemma handleMessage_rfid_check:
  assumes "CHR ''/'' \<notin> set binId" and "JSON_parse msg = Inr pl"
  shows "handleMessage (''smartbin/'' @ binId @ ''/rfid_check'') msg st
         = caught (handleRFIDCheck binId pl st)"
proof -
  have "String_split (CHR ''/'') (''smartbin/'' @ binId @ ''/rfid_check'')
        = [''smartbin'', binId, ''rfid_check'']"
    using topic_parts [OF assms(1), of "''rfid_check''"] by simp
  then show ?thesis
    using assms(2) by (simp add: handleMessage_def)
qed

lemma handleMessage_level:
  assumes "CHR ''/'' \<notin> set binId" and "JSON_parse msg = Inr pl"
  shows "handleMessage (''smartbin/'' @ binId @ ''/data/level'') msg st
         = caught (handleLevelData binId pl st)"
proof -
  have "String_split (CHR ''/'') (''smartbin/'' @ binId @ ''/data/level'')
        = [''smartbin'', binId, ''data'', ''level'']"
    using topic_parts [OF assms(1), of "''data/level''"] by simp
  then show ?thesis
    using assms(2) by (simp add: handleMessage_def)
qed

lemma handleMessage_status:
  assumes "CHR ''/'' \<notin> set binId" and "JSON_parse msg = Inr pl"
  shows "handleMessage (''smartbin/'' @ binId @ ''/status'') msg st
         = caught (handleStatusUpdate binId msg st)"
proof -
  have "String_split (CHR ''/'') (''smartbin/'' @ binId @ ''/status'')
        = [''smartbin'', binId, ''status'']"
    using topic_parts [OF assms(1), of "''status''"] by simp
  then show ?thesis
    using assms(2) by (simp add: handleMessage_def)
qed

lemma handleMessage_unparsable:
  "JSON_parse msg = Inl e \<Longrightarrow> handleMessage tp msg st = st"
  by (simp add: handleMessage_def Let_def)

lemma JSON_parse_online: "JSON_parse ''online'' = Inl SyntaxError"
  by code_simp

lemma JSON_parse_offline: "JSON_parse ''offline'' = Inl SyntaxError"
  by code_simp


section \<open>Telemetry\<close>

text \<open>
  The host rounds a literal to binary64: a level written just below 80 is the number 80,
  a literal beyond the range is infinite, and a fraction is kept as the nearest binary
  fraction.
\<close>

lemma JSON_parse_rounds:
  "JSON_parse ''79.99999999999999999'' = Inr (JNum 80)"
  "JSON_parse ''85.5'' = Inr (JNum (171 / 2))"
  "JSON_parse ''0.1'' = Inr (JNum (3602879701896397 / 36028797018963968))"
  "JSON_parse ''-0'' = Inr (JNum 0)"
  by code_simp+

lemma JSON_parse_infinite_level:
  "JSON_parse ''{\"level\":1e309,\"cm\":30}'' = Inr (JObj [(''level'', JInfinity), (''cm'', JNum 30)])"
  by code_simp

lemma update_where_other_tables [simp]:
  "users (update_where_bin_id binId f st) = users st"
  "logs (update_where_bin_id binId f st) = logs st"
  "published (update_where_bin_id binId f st) = published st"
  "now (update_where_bin_id binId f st) = now st"
  by (simp_all add: update_where_bin_id_def)

lemma bin_id_on_update: "bin_id new = bin_id old \<Longrightarrow> bin_id (on_update t old new) = bin_id old"
  by (simp add: on_update_def)

lemma update_where_keeps_ids:
  assumes "\<And>b. bin_id (f b) = bin_id b"
  shows "map bin_id (bins (update_where_bin_id binId f st)) = map bin_id (bins st)"
  by (simp add: update_where_bin_id_def o_def bin_id_on_update assms)

lemma find_bin_map:
  assumes "\<And>b. bin_id (g b) = bin_id b"
  shows "find (\<lambda>b. bin_id b = k) (map g bs) = map_option g (find (\<lambda>b. bin_id b = k) bs)"
  by (induction bs) (auto simp: assms)

lemma getBinById_update_where:
  assumes "\<And>b. bin_id (f b) = bin_id b"
  shows "getBinById k (update_where_bin_id binId f st)
         = map_option (\<lambda>b. if bin_id b = binId then on_update (now st) b (f b) else b)
             (getBinById k st)"
  unfolding getBinById_def update_where_bin_id_def
  by (simp add: find_bin_map bin_id_on_update assms)

lemma getBinById_in_ids: "getBinById binId st = Some b \<Longrightarrow> binId \<in> set (map bin_id (bins st))"
  by (auto simp: getBinById_def find_Some_iff)

lemma getBinById_bin_id: "getBinById binId st = Some b \<Longrightarrow> bin_id b = binId"
  by (auto simp: getBinById_def find_Some_iff)

lemma update_where_other_rows:
  "list_all2 (\<lambda>r r'. bin_id r \<noteq> binId \<longrightarrow> r' = r) (bins st) (bins (update_where_bin_id binId f st))"
  by (simp add: update_where_bin_id_def list_all2_map2 list_all2_same)

lemma on_update_fields:
  "current_level_percent (on_update t old new) = current_level_percent new"
  "current_distance_cm (on_update t old new) = current_distance_cm new"
  "last_seen (on_update t old new) = last_seen new"
  "is_online (on_update t old new) = is_online new"
  by (auto simp: on_update_def)

text \<open>The row that \<^verbatim>\<open>updateBinLevel\<close> leaves, for numbers that the columns hold.\<close>

lemma updateBinLevel_finite:
  assumes "int_column level = Inr l" and "int_column cm = Inr c"
    and "binId \<in> set (map bin_id (bins st))"
  shows "updateBinLevel binId (JNum level) (JNum cm) st =
         Inr (update_where_bin_id binId
                (\<lambda>b. b\<lparr>current_level_percent := l, current_distance_cm := c,
                       last_seen := Some (now st)\<rparr>) st)"
  using assms by (simp add: updateBinLevel_def)

lemma updateBinLevel_infinite:
  "is_infinite lv \<or> is_infinite cv \<Longrightarrow> updateBinLevel binId lv cv st = Inl ER_BAD_FIELD_ERROR"
  by (simp add: updateBinLevel_def)

lemma updateBinLevel_bins:
  "updateBinLevel binId lv cv st = Inr st1 \<Longrightarrow>
     st1 = st \<or> (\<exists>f. (\<forall>b. bin_id (f b) = bin_id b) \<and> st1 = update_where_bin_id binId f st)"
proof -
  assume u: "updateBinLevel binId lv cv st = Inr st1"
  show ?thesis
  proof (cases "binId \<in> set (map bin_id (bins st))")
    case False
    with u show ?thesis
      by (auto simp: updateBinLevel_def split: if_splits)
  next
    case True
    with u obtain l c where
      "st1 = update_where_bin_id binId
               (\<lambda>b. b\<lparr>current_level_percent := l, current_distance_cm := c,
                      last_seen := Some (now st)\<rparr>) st"
      by (auto simp: updateBinLevel_def split: if_splits sum.splits)
    then show ?thesis
      by (intro disjI2
            exI [where x = "\<lambda>b. b\<lparr>current_level_percent := l, current_distance_cm := c,
                                   last_seen := Some (now st)\<rparr>"]) simp
  qed
qed

lemma getBinById_logs_update [simp]: "getBinById k (st\<lparr>logs := x\<rparr>) = getBinById k st"
  by (simp add: getBinById_def)

lemma getBinById_published_update [simp]: "getBinById k (st\<lparr>published := x\<rparr>) = getBinById k st"
  by (simp add: getBinById_def)

lemma publish_fields [simp]:
  "users (publish tp pl q r st) = users st"
  "bins (publish tp pl q r st) = bins st"
  "logs (publish tp pl q r st) = logs st"
  "now (publish tp pl q r st) = now st"
  "published (publish tp pl q r st) = published st @ [\<lparr>topic = tp, payload = pl, qos = q, retain = r\<rparr>]"
  by (simp_all add: publish_def)

lemma getBinById_publish [simp]: "getBinById k (publish tp pl q r st) = getBinById k st"
  by (simp add: getBinById_def)

text \<open>The row that \<^verbatim>\<open>logEvent\<close> appends, once its parameters are accepted.\<close>

lemma logEvent_Inr:
  assumes "binId \<in> set (map bin_id (bins st))"
    and "insert_text 50 (rfidUid d) = Inr u"
    and "insert_int (levelPercent d) = Inr l"
    and "insert_int (distanceCm d) = Inr c"
  shows "logEvent binId ty d st =
         Inr (st\<lparr>logs := logs st @
                [\<lparr>log_bin_id = binId, log_event_type = ty,
                  log_rfid_uid = u, log_user_name = userName d,
                  log_level_percent = l, log_distance_cm = c,
                  log_success = (case success d of None \<Rightarrow> True | Some x \<Rightarrow> x),
                  log_message = message d, log_timestamp = now st\<rparr>]\<rparr>)"
  using assms by (simp add: logEvent_def)

lemma insert_nothing [simp]: "insert_text n None = Inr None" "insert_int None = Inr None"
  by (simp_all add: insert_text_def insert_int_def)

lemma logEvent_known_bin:
  assumes "binId \<in> set (map bin_id (bins st))"
  shows "logEvent binId ty (no_data\<lparr>message := m, success := s\<rparr>) st =
         Inr (st\<lparr>logs := logs st @
                [\<lparr>log_bin_id = binId, log_event_type = ty, log_rfid_uid = None,
                  log_user_name = None, log_level_percent = None, log_distance_cm = None,
                  log_success = (case s of None \<Rightarrow> True | Some x \<Rightarrow> x),
                  log_message = m, log_timestamp = now st\<rparr>]\<rparr>)"
  by (simp add: logEvent_Inr [OF assms, where u = None and l = None and c = None] no_data_def)

lemma logEvent_tables:
  "logEvent binId ty d st = Inr st1 \<Longrightarrow>
     users st1 = users st \<and> bins st1 = bins st \<and> published st1 = published st \<and> now st1 = now st"
  by (auto simp: logEvent_def split: sum.splits if_splits)

text \<open>What \<^verbatim>\<open>handleLevelData\<close> does with a numeric reading for a bin of the store.\<close>

lemma handleLevelData_finite:
  assumes "get_prop ''level'' pl = Some (JNum level)"
    and "get_prop ''cm'' pl = Some (JNum cm)"
    and "int_column level = Inr l" and "int_column cm = Inr c"
    and "binId \<in> set (map bin_id (bins st))"
  shows "caught (handleLevelData binId pl st) =
         (if 80 \<le> level then
            (update_where_bin_id binId
               (\<lambda>b. b\<lparr>current_level_percent := l, current_distance_cm := c,
                      last_seen := Some (now st)\<rparr>) st)
              \<lparr>logs := logs st @
                 [\<lparr>log_bin_id = binId, log_event_type = ''level_update'', log_rfid_uid = None,
                   log_user_name = None, log_level_percent = Some l,
                   log_distance_cm = Some c, log_success = True,
                   log_message = Some ''Bin is nearly full!'', log_timestamp = now st\<rparr>],
               published := published st @
                 [\<lparr>topic = ''smartbin/'' @ binId @ ''/alert'',
                   payload = [(''type'', Val (JStr ''full_warning'')),
                              (''level'', Val (JNum level)),
                              (''message'', Template [Lit (''Bin '' @ binId @ '' is ''),
                                                      Sub (JNum level), Lit ''% full'']),
                              (''ts'', ISOString (now st))],
                   qos = 1, retain = False\<rparr>]\<rparr>
          else update_where_bin_id binId
                 (\<lambda>b. b\<lparr>current_level_percent := l, current_distance_cm := c,
                        last_seen := Some (now st)\<rparr>) st)"
proof -
  let ?st1 = "update_where_bin_id binId
                (\<lambda>b. b\<lparr>current_level_percent := l, current_distance_cm := c,
                       last_seen := Some (now st)\<rparr>) st"
  have nn: "pl \<noteq> JNull" using assms(1) by auto
  have ids: "binId \<in> set (map bin_id (bins ?st1))"
    using assms(5) by (simp add: update_where_keeps_ids)
  have ins: "insert_int (Some (JNum level)) = Inr (Some l)" "insert_int (Some (JNum cm)) = Inr (Some c)"
    using assms(3,4) by (simp_all add: insert_int_def)
  have log: "logEvent binId ''level_update''
               (no_data\<lparr>levelPercent := Some (JNum level), distanceCm := Some (JNum cm),
                        message := Some ''Bin is nearly full!''\<rparr>) ?st1
             = Inr (?st1\<lparr>logs := logs st @
                 [\<lparr>log_bin_id = binId, log_event_type = ''level_update'', log_rfid_uid = None,
                   log_user_name = None, log_level_percent = Some l,
                   log_distance_cm = Some c, log_success = True,
                   log_message = Some ''Bin is nearly full!'', log_timestamp = now st\<rparr>]\<rparr>)"
    by (simp add: logEvent_Inr [OF ids, where u = None and l = "Some l" and c = "Some c"]
                  ins no_data_def)
  show ?thesis
    by (simp add: handleLevelData_def nn assms(1,2) updateBinLevel_finite [OF assms(3,4,5)] log
                  caught_def publishAlert_def publish_def)
qed

lemma handleLevelData_infinite:
  assumes "get_prop ''level'' pl = Some lv" and "get_prop ''cm'' pl = Some cv"
    and "is_infinite lv \<or> is_infinite cv"
  shows "caught (handleLevelData binId pl st) = st"
proof -
  have nn: "pl \<noteq> JNull" using assms(1) by auto
  show ?thesis
    by (simp add: handleLevelData_def nn assms(1,2) updateBinLevel_infinite [OF assms(3)] caught_def)
qed

lemma handleLevelData_other_rows:
  "list_all2 (\<lambda>r r'. bin_id r \<noteq> binId \<longrightarrow> r' = r) (bins st)
     (bins (caught (handleLevelData binId pl st)))"
proof -
  have "bins (caught (handleLevelData binId pl st)) = bins st
        \<or> (\<exists>f. bins (caught (handleLevelData binId pl st)) = bins (update_where_bin_id binId f st))"
    by (auto simp: handleLevelData_def caught_def publishAlert_def
             dest!: updateBinLevel_bins logEvent_tables
             split: option.splits sum.splits if_splits)
  then show ?thesis
    by (auto simp: list_all2_same update_where_other_rows)
qed

lemma int_column_Inr:
  "int_column q = Inr n \<longleftrightarrow>
     n = round_half_away q \<and> - 2147483648 \<le> round_half_away q \<and> round_half_away q \<le> 2147483647"
  by (auto simp: int_column_def)

lemma round_half_away_percent:
  "(0 \<le> round_half_away q \<and> round_half_away q \<le> 100) \<longleftrightarrow> (- 1 / 2 < q \<and> q < 201 / 2)"
proof (cases "0 \<le> q")
  case True
  define n where "n = \<lfloor>q + 1 / 2\<rfloor>"
  have r: "round_half_away q = n"
    using True by (simp add: round_half_away_def n_def)
  have lo: "0 \<le> n"
    unfolding n_def using True by simp
  have hi: "n \<le> 100 \<longleftrightarrow> q + 1 / 2 < 101"
    unfolding n_def by (simp add: floor_le_iff)
  show ?thesis
    unfolding r using True lo hi by auto
next
  case False
  define n where "n = \<lfloor>- q + 1 / 2\<rfloor>"
  have r: "round_half_away q = - n"
    using False by (simp add: round_half_away_def n_def)
  have lo: "0 \<le> n"
    unfolding n_def using False by simp
  have hi: "n \<le> 0 \<longleftrightarrow> - q + 1 / 2 < 1"
    unfolding n_def by (simp add: floor_le_iff)
  show ?thesis
    unfolding r using False lo hi by auto
qed

text \<open>
  Claim C4, as stated, fails for a numeric reading that is infinite. The literal
  \<^verbatim>\<open>1e309\<close> is a number of the host (\<^verbatim>\<open>typeof\<close> gives \<^verbatim>\<open>number\<close>, and it is above 80), but
  the UPDATE that carries it is rejected: for \<^verbatim>\<open>BIN_01\<close> nothing is stored, no log row is
  appended and no alert is published.
\<close>

theorem telemetry_infinite_level_not_stored:
  "JSON_parse ''{\"level\":1e309,\"cm\":30}'' = Inr (JObj [(''level'', JInfinity), (''cm'', JNum 30)])
   \<and> is_number JInfinity \<and> is_number (JNum 30) \<and> number_ge JInfinity 80
   \<and> getBinById ''BIN_01'' demo_store \<noteq> None
   \<and> handleMessage ''smartbin/BIN_01/data/level'' ''{\"level\":1e309,\"cm\":30}'' demo_store
       = demo_store"
proof -
  have p: "JSON_parse ''{\"level\":1e309,\"cm\":30}''
           = Inr (JObj [(''level'', JInfinity), (''cm'', JNum 30)])"
    by (rule JSON_parse_infinite_level)
  have b: "getBinById ''BIN_01'' demo_store \<noteq> None"
    by (simp add: getBinById_def demo_store_def)
  have "handleMessage (''smartbin/'' @ ''BIN_01'' @ ''/data/level'') ''{\"level\":1e309,\"cm\":30}''
          demo_store
        = caught (handleLevelData ''BIN_01'' (JObj [(''level'', JInfinity), (''cm'', JNum 30)])
                    demo_store)"
    by (rule handleMessage_level [OF _ p]) simp
  also have "\<dots> = demo_store"
    by (rule handleLevelData_infinite [where lv = JInfinity and cv = "JNum 30"]) simp_all
  finally have h: "handleMessage ''smartbin/BIN_01/data/level'' ''{\"level\":1e309,\"cm\":30}''
                     demo_store = demo_store"
    by simp
  from p b h show ?thesis by simp
qed

text \<open>
  Claim C4, as amended. For a telemetry message whose \<^verbatim>\<open>level\<close> and \<^verbatim>\<open>cm\<close> are numbers,
  for a bin of the store. When both are finite and fit the integer columns, the bin's row
  takes the level and the distance, each rounded to the nearest integer, and the clock
  reading as last-seen, whatever the level is; when the level is 80 or more, exactly one
  log row and exactly one full-bin alert carrying the level are added; when it is below
  80, none is. When the level or the distance is infinite, the store is left as it was:
  no update, no log row, no alert.
\<close>

theorem telemetry_updates_and_alerts:
  fixes binId msg pl lv cv level cm st b
  defines "st' \<equiv> handleMessage (''smartbin/'' @ binId @ ''/data/level'') msg st"
  assumes "CHR ''/'' \<notin> set binId"
    and "JSON_parse msg = Inr pl"
    and "get_prop ''level'' pl = Some lv"
    and "get_prop ''cm'' pl = Some cv"
    and "getBinById binId st = Some b"
  shows "(lv = JNum level \<and> cv = JNum cm
          \<and> - 2147483648 \<le> round_half_away level \<and> round_half_away level \<le> 2147483647
          \<and> - 2147483648 \<le> round_half_away cm \<and> round_half_away cm \<le> 2147483647 \<longrightarrow>
            (\<exists>b'. getBinById binId st' = Some b'
                 \<and> current_level_percent b' = round_half_away level
                 \<and> current_distance_cm b' = round_half_away cm
                 \<and> last_seen b' = Some (now st))
          \<and> (80 \<le> level \<longrightarrow>
                logs st' = logs st @
                  [\<lparr>log_bin_id = binId, log_event_type = ''level_update'', log_rfid_uid = None,
                    log_user_name = None, log_level_percent = Some (round_half_away level),
                    log_distance_cm = Some (round_half_away cm), log_success = True,
                    log_message = Some ''Bin is nearly full!'', log_timestamp = now st\<rparr>]
                \<and> published st' = published st @
                  [\<lparr>topic = ''smartbin/'' @ binId @ ''/alert'',
                    payload = [(''type'', Val (JStr ''full_warning'')),
                               (''level'', Val (JNum level)),
                               (''message'', Template [Lit (''Bin '' @ binId @ '' is ''),
                                                       Sub (JNum level), Lit ''% full'']),
                               (''ts'', ISOString (now st))],
                    qos = 1, retain = False\<rparr>])
          \<and> (level < 80 \<longrightarrow> logs st' = logs st \<and> published st' = published st))
       \<and> (is_number lv \<and> is_number cv \<and> (is_infinite lv \<or> is_infinite cv) \<longrightarrow> st' = st)"
proof -
  have ids: "binId \<in> set (map bin_id (bins st))"
    by (rule getBinById_in_ids [OF assms(6)])
  have st': "st' = caught (handleLevelData binId pl st)"
    unfolding st'_def by (rule handleMessage_level [OF assms(2,3)])
  have bid: "bin_id b = binId"
    by (rule getBinById_bin_id [OF assms(6)])
  have inf: "is_number lv \<and> is_number cv \<and> (is_infinite lv \<or> is_infinite cv) \<longrightarrow> st' = st"
    using handleLevelData_infinite [OF assms(4,5), of binId st] by (simp add: st')
  have fin: "?thesis" if f: "lv = JNum level" "cv = JNum cm"
      "- 2147483648 \<le> round_half_away level" "round_half_away level \<le> 2147483647"
      "- 2147483648 \<le> round_half_away cm" "round_half_away cm \<le> 2147483647"
  proof -
    have l: "int_column level = Inr (round_half_away level)"
      and c: "int_column cm = Inr (round_half_away cm)"
      using f by (simp_all add: int_column_def)
    have g: "get_prop ''level'' pl = Some (JNum level)" "get_prop ''cm'' pl = Some (JNum cm)"
      using assms(4,5) f by simp_all
    have row: "getBinById binId
                 (update_where_bin_id binId
                    (\<lambda>b. b\<lparr>current_level_percent := round_half_away level,
                           current_distance_cm := round_half_away cm,
                           last_seen := Some (now st)\<rparr>) st)
               = Some (on_update (now st) b
                         (b\<lparr>current_level_percent := round_half_away level,
                            current_distance_cm := round_half_away cm,
                            last_seen := Some (now st)\<rparr>))"
      by (simp add: getBinById_update_where assms(6) bid)
    show ?thesis
      unfolding st' handleLevelData_finite [OF g l c ids]
      using f by (simp add: row on_update_fields)
  qed
  show ?thesis
  proof (cases "lv = JNum level \<and> cv = JNum cm
          \<and> - 2147483648 \<le> round_half_away level \<and> round_half_away level \<le> 2147483647
          \<and> - 2147483648 \<le> round_half_away cm \<and> round_half_away cm \<le> 2147483647")
    case True
    then show ?thesis using fin by blast
  next
    case False
    with inf show ?thesis by blast
  qed
qed

theorem telemetry_updates_and_alerts_witness:
  "CHR ''/'' \<notin> set ''BIN_01''
   \<and> JSON_parse ''{\"level\":85.5,\"cm\":30}''
       = Inr (JObj [(''level'', JNum (171 / 2)), (''cm'', JNum 30)])
   \<and> getBinById ''BIN_01'' demo_store \<noteq> None
   \<and> round_half_away (171 / 2) = 86 \<and> round_half_away 30 = 30
   \<and> (\<exists>b'. getBinById ''BIN_01''
               (handleMessage ''smartbin/BIN_01/data/level'' ''{\"level\":85.5,\"cm\":30}'' demo_store)
             = Some b'
            \<and> current_level_percent b' = 86 \<and> current_distance_cm b' = 30
            \<and> last_seen b' = Some 1000)
   \<and> map log_level_percent
        (logs (handleMessage ''smartbin/BIN_01/data/level'' ''{\"level\":85.5,\"cm\":30}'' demo_store))
       = [Some 86]
   \<and> map topic (published (handleMessage ''smartbin/BIN_01/data/level'' ''{\"level\":85.5,\"cm\":30}''
                              demo_store)) = [''smartbin/BIN_01/alert'']
   \<and> is_infinite JInfinity
   \<and> handleMessage ''smartbin/BIN_01/data/level'' ''{\"level\":1e309,\"cm\":30}'' demo_store
       = demo_store"
proof -
  have h1: "CHR ''/'' \<notin> set ''BIN_01''" by simp
  have h2: "JSON_parse ''{\"level\":85.5,\"cm\":30}''
            = Inr (JObj [(''level'', JNum (171 / 2)), (''cm'', JNum 30)])"
    by code_simp
  have h3: "get_prop ''level'' (JObj [(''level'', JNum (171 / 2)), (''cm'', JNum 30)])
            = Some (JNum (171 / 2))"
    by simp
  have h4: "get_prop ''cm'' (JObj [(''level'', JNum (171 / 2)), (''cm'', JNum 30)]) = Some (JNum 30)"
    by simp
  have h5: "getBinById ''BIN_01'' demo_store = Some (hd (bins demo_store))"
    by (simp add: getBinById_def demo_store_def)
  have r: "round_half_away (171 / 2) = 86" "round_half_away 30 = 30"
    by code_simp+
  have n: "now demo_store = 1000" "logs demo_store = []" "published demo_store = []"
    by (simp_all add: demo_store_def)
  have i2: "JSON_parse ''{\"level\":1e309,\"cm\":30}''
            = Inr (JObj [(''level'', JInfinity), (''cm'', JNum 30)])"
    by (rule JSON_parse_infinite_level)
  have i3: "get_prop ''level'' (JObj [(''level'', JInfinity), (''cm'', JNum 30)]) = Some JInfinity"
    by simp
  have i4: "get_prop ''cm'' (JObj [(''level'', JInfinity), (''cm'', JNum 30)]) = Some (JNum 30)"
    by simp
  from telemetry_updates_and_alerts [OF h1 h2 h3 h4 h5, of "171 / 2" 30]
       telemetry_updates_and_alerts [OF h1 i2 i3 i4 h5, of 0 0]
       h1 h2 h5 r
  show ?thesis by (simp add: n)
qed

text \<open>
  Claim C2, as stated, fails: the backend has no range check. A reading of 150 percent
  for \<^verbatim>\<open>BIN_01\<close>, whose stored level was 0, is stored as 150.
\<close>

theorem telemetry_out_of_range_is_stored:
  "map current_level_percent (bins demo_store) = [0, 0]
   \<and> map current_level_percent
        (bins (handleMessage ''smartbin/BIN_01/data/level'' ''{\"level\":150,\"cm\":10}'' demo_store))
       = [150, 0]
   \<and> \<not> (150 \<le> (100 :: int))"
  by code_simp

text \<open>
  Claim C2, as amended. The backend persists the level of a telemetry message without a
  range check, for a bin of the store. A finite level that fits the integer column
  (with a distance that does) is stored rounded to the nearest integer, so the stored
  level lies in [0,100] exactly when the reported level lies between -1/2 and 100.5; an
  infinite level or distance leaves the bin's row as it was. Whatever the message is, the
  rows of the other bins are as they were.
\<close>

theorem telemetry_level_stored_as_reported:
  fixes binId msg pl lv cv level cm st b
  defines "st' \<equiv> handleMessage (''smartbin/'' @ binId @ ''/data/level'') msg st"
  assumes "CHR ''/'' \<notin> set binId"
    and "JSON_parse msg = Inr pl"
    and "get_prop ''level'' pl = Some lv"
    and "get_prop ''cm'' pl = Some cv"
    and "getBinById binId st = Some b"
  shows "(lv = JNum level \<and> cv = JNum cm
          \<and> - 2147483648 \<le> round_half_away level \<and> round_half_away level \<le> 2147483647
          \<and> - 2147483648 \<le> round_half_away cm \<and> round_half_away cm \<le> 2147483647 \<longrightarrow>
            (\<exists>b'. getBinById binId st' = Some b'
                 \<and> current_level_percent b' = round_half_away level
                 \<and> ((0 \<le> current_level_percent b' \<and> current_level_percent b' \<le> 100)
                      = (- 1 / 2 < level \<and> level < 201 / 2))))
       \<and> (is_infinite lv \<or> is_infinite cv \<longrightarrow> getBinById binId st' = Some b)
       \<and> list_all2 (\<lambda>r r'. bin_id r \<noteq> binId \<longrightarrow> r' = r) (bins st) (bins st')"
proof -
  have ids: "binId \<in> set (map bin_id (bins st))"
    by (rule getBinById_in_ids [OF assms(6)])
  have st': "st' = caught (handleLevelData binId pl st)"
    unfolding st'_def by (rule handleMessage_level [OF assms(2,3)])
  have bid: "bin_id b = binId"
    by (rule getBinById_bin_id [OF assms(6)])
  have others: "list_all2 (\<lambda>r r'. bin_id r \<noteq> binId \<longrightarrow> r' = r) (bins st) (bins st')"
    unfolding st' by (rule handleLevelData_other_rows)
  have inf: "is_infinite lv \<or> is_infinite cv \<longrightarrow> getBinById binId st' = Some b"
    using handleLevelData_infinite [OF assms(4,5), of binId st] assms(6) by (simp add: st')
  have fin: "\<exists>b'. getBinById binId st' = Some b'
                 \<and> current_level_percent b' = round_half_away level
                 \<and> ((0 \<le> current_level_percent b' \<and> current_level_percent b' \<le> 100)
                      = (- 1 / 2 < level \<and> level < 201 / 2))"
    if f: "lv = JNum level" "cv = JNum cm"
      "- 2147483648 \<le> round_half_away level" "round_half_away level \<le> 2147483647"
      "- 2147483648 \<le> round_half_away cm" "round_half_away cm \<le> 2147483647"
  proof -
    have l: "int_column level = Inr (round_half_away level)"
      and c: "int_column cm = Inr (round_half_away cm)"
      using f by (simp_all add: int_column_def)
    have g: "get_prop ''level'' pl = Some (JNum level)" "get_prop ''cm'' pl = Some (JNum cm)"
      using assms(4,5) f by simp_all
    have row: "getBinById binId
                 (update_where_bin_id binId
                    (\<lambda>b. b\<lparr>current_level_percent := round_half_away level,
                           current_distance_cm := round_half_away cm,
                           last_seen := Some (now st)\<rparr>) st)
               = Some (on_update (now st) b
                         (b\<lparr>current_level_percent := round_half_away level,
                            current_distance_cm := round_half_away cm,
                            last_seen := Some (now st)\<rparr>))"
      by (simp add: getBinById_update_where assms(6) bid)
    show ?thesis
      unfolding st' handleLevelData_finite [OF g l c ids]
      by (simp add: row on_update_fields round_half_away_percent)
  qed
  from fin inf others show ?thesis by blast
qed

theorem telemetry_level_stored_as_reported_witness:
  "CHR ''/'' \<notin> set ''BIN_01''
   \<and> JSON_parse ''{\"level\":45,\"cm\":110}'' = Inr (JObj [(''level'', JNum 45), (''cm'', JNum 110)])
   \<and> getBinById ''BIN_01'' demo_store \<noteq> None
   \<and> round_half_away 45 = 45 \<and> round_half_away 110 = 110
   \<and> (\<exists>b'. getBinById ''BIN_01''
               (handleMessage ''smartbin/BIN_01/data/level'' ''{\"level\":45,\"cm\":110}'' demo_store)
             = Some b'
            \<and> current_level_percent b' = 45)
   \<and> list_all2 (\<lambda>r r'. bin_id r \<noteq> ''BIN_01'' \<longrightarrow> r' = r) (bins demo_store)
        (bins (handleMessage ''smartbin/BIN_01/data/level'' ''{\"level\":45,\"cm\":110}'' demo_store))"
proof -
  have h1: "CHR ''/'' \<notin> set ''BIN_01''" by simp
  have h2: "JSON_parse ''{\"level\":45,\"cm\":110}''
            = Inr (JObj [(''level'', JNum 45), (''cm'', JNum 110)])"
    by code_simp
  have h3: "get_prop ''level'' (JObj [(''level'', JNum 45), (''cm'', JNum 110)]) = Some (JNum 45)"
    by simp
  have h4: "get_prop ''cm'' (JObj [(''level'', JNum 45), (''cm'', JNum 110)]) = Some (JNum 110)"
    by simp
  have h5: "getBinById ''BIN_01'' demo_store = Some (hd (bins demo_store))"
    by (simp add: getBinById_def demo_store_def)
  have r: "round_half_away 45 = 45" "round_half_away 110 = 110"
    by code_simp+
  from telemetry_level_stored_as_reported [OF h1 h2 h3 h4 h5, of 45 110] h1 h2 h5 r
  show ?thesis by auto
qed


section \<open>Presence messages\<close>

text \<open>
  Once it is reached with a bin of the store, \<^verbatim>\<open>handleStatusUpdate\<close> sets the online flag
  from the token, stamps the row and appends one log row.
\<close>

lemma handleStatusUpdate_effect:
  assumes "binId \<in> set (map bin_id (bins st))"
  shows "handleStatusUpdate binId status st =
         Inr ((updateBinStatus binId (status = ''online'') st)
               \<lparr>logs := logs st @
                  [\<lparr>log_bin_id = binId, log_event_type = ''alert'', log_rfid_uid = None,
                    log_user_name = None, log_level_percent = None, log_distance_cm = None,
                    log_success = (status = ''online''),
                    log_message = Some (''Device '' @ (if status = ''online'' then ''connected''
                                                       else ''disconnected'')),
                    log_timestamp = now st\<rparr>]\<rparr>)"
proof -
  have t: "map bin_id (bins (updateBinStatus binId b st)) = map bin_id (bins st)"
          "logs (updateBinStatus binId b st) = logs st"
          "now (updateBinStatus binId b st) = now st" for b
    by (simp_all add: updateBinStatus_def update_where_keeps_ids)
  have ids: "binId \<in> set (map bin_id (bins (updateBinStatus binId (status = ''online'') st)))"
    using assms by (simp only: t)
  show ?thesis
    unfolding handleStatusUpdate_def Let_def logEvent_known_bin [OF ids]
    by (simp add: no_data_def t)
qed

text \<open>
  Claim C1. A presence message carries the bare token \<^verbatim>\<open>online\<close> or \<^verbatim>\<open>offline\<close>.
  \<^verbatim>\<open>handleMessage\<close> parses every payload as JSON before it routes; the bare token is not
  JSON, so the parse throws and the message is dropped before \<^verbatim>\<open>handleStatusUpdate\<close> is
  reached: on any topic and any store, the store is left exactly as it was (no online
  flag, no last-seen stamp, no log row).
\<close>

theorem status_token_dropped:
  "JSON_parse ''online'' = Inl SyntaxError \<and> JSON_parse ''offline'' = Inl SyntaxError
   \<and> handleMessage tp ''online'' st = st \<and> handleMessage tp ''offline'' st = st"
  by (simp add: JSON_parse_online JSON_parse_offline
                handleMessage_unparsable [OF JSON_parse_online]
                handleMessage_unparsable [OF JSON_parse_offline])

section \<open>Credential scans\<close>

lemma find_filter_hd:
  "find P xs = (case filter P xs of [] \<Rightarrow> None | x # ys \<Rightarrow> Some x)"
  by (induction xs) auto

text \<open>On codes of ASCII letters and digits the texts are equal up to the case of letters.\<close>

lemma is_alnum_not_space: "is_alnum c \<Longrightarrow> c \<noteq> CHR '' ''"
  by (auto simp: is_alnum_def)

lemma strip_spaces_alnum:
  assumes "list_all is_alnum s"
  shows "strip_spaces s = s"
proof (cases "rev s")
  case Nil
  then show ?thesis by (simp add: strip_spaces_def)
next
  case (Cons c cs)
  then have "c \<in> set s"
    by (metis list.set_intros(1) set_rev)
  with assms have "is_alnum c"
    by (simp add: list_all_iff)
  then have "c \<noteq> CHR '' ''"
    by (rule is_alnum_not_space)
  with Cons have "dropWhile (\<lambda>c. c = CHR '' '') (rev s) = rev s"
    by simp
  then show ?thesis
    by (simp add: strip_spaces_def)
qed

lemma same_text_alnum:
  assumes "list_all is_alnum a" and "list_all is_alnum b"
  shows "same_text a b \<longleftrightarrow> map to_upper a = map to_upper b"
  by (simp add: same_text_def collation_key_def strip_spaces_alnum assms)

lemma char_length_le: "char_length s \<le> length s"
  by (simp add: char_length_def)

lemma varchar_short: "length s \<le> n \<Longrightarrow> varchar n s = Inr s"
  using char_length_le [of s] by (simp add: varchar_def)

text \<open>A uid that is a text, or an array of one text, stands for that text in both queries.\<close>

lemma uid_text:
  assumes "uid = JStr s \<or> uid = JArr [JStr s]" and "length s \<le> 50"
  shows "getUserByRFID uid st
         = Inr (find (\<lambda>u. same_text (rfid_uid u) s \<and> is_active u) (users st))"
    and "insert_text 50 (Some uid) = Inr (Some s)"
  using assms by (auto simp: getUserByRFID_def insert_text_def varchar_short)

text \<open>What \<^verbatim>\<open>handleRFIDCheck\<close> does with such a uid for a bin of the store.\<close>

lemma handleRFIDCheck_known_bin:
  assumes "get_prop ''uid'' pl = Some uid"
    and "uid = JStr s \<or> uid = JArr [JStr s]" and "s \<noteq> []" and "length s \<le> 50"
    and "getBinById binId st = Some b"
  shows "caught (handleRFIDCheck binId pl st) =
         (case find (\<lambda>u. same_text (rfid_uid u) s \<and> is_active u) (users st) of
            Some user \<Rightarrow>
              st\<lparr>logs := logs st @
                    [\<lparr>log_bin_id = binId, log_event_type = ''rfid_scan'',
                      log_rfid_uid = Some s, log_user_name = Some (name user),
                      log_level_percent = None, log_distance_cm = None, log_success = True,
                      log_message = Some (''Access granted for '' @ name user),
                      log_timestamp = now st\<rparr>],
                  published := published st @
                    [\<lparr>topic = ''smartbin/'' @ binId @ ''/cmd'',
                      payload = [(''action'', Val (JStr ''open'')),
                                 (''reason'', Val (JStr ''rfid_authorized'')),
                                 (''user'', Val (JStr (name user))),
                                 (''ts'', ISOString (now st))],
                      qos = 1, retain = False\<rparr>]\<rparr>
          | None \<Rightarrow>
              st\<lparr>logs := logs st @
                    [\<lparr>log_bin_id = binId, log_event_type = ''rfid_scan'',
                      log_rfid_uid = Some s, log_user_name = None,
                      log_level_percent = None, log_distance_cm = None, log_success = False,
                      log_message = Some ''Access denied: Unknown RFID'',
                      log_timestamp = now st\<rparr>],
                  published := published st @
                    [\<lparr>topic = ''smartbin/'' @ binId @ ''/alert'',
                      payload = [(''type'', Val (JStr ''unauthorized_access'')),
                                 (''uid'', Val uid),
                                 (''message'', Template [Lit ''Unauthorized RFID attempt: '',
                                                         Sub uid]),
                                 (''ts'', ISOString (now st))],
                      qos = 1, retain = False\<rparr>]\<rparr>)"
proof -
  have nn: "pl \<noteq> JNull" using assms(1) by auto
  have t: "truthy uid" using assms(2,3) by auto
  have ids: "binId \<in> set (map bin_id (bins st))"
    by (rule getBinById_in_ids [OF assms(5)])
  note q = uid_text [OF assms(2,4)]
  have log: "logEvent binId ''rfid_scan'' d st =
             Inr (st\<lparr>logs := logs st @
                    [\<lparr>log_bin_id = binId, log_event_type = ''rfid_scan'',
                      log_rfid_uid = Some s, log_user_name = userName d,
                      log_level_percent = None, log_distance_cm = None,
                      log_success = (case success d of None \<Rightarrow> True | Some x \<Rightarrow> x),
                      log_message = message d, log_timestamp = now st\<rparr>]\<rparr>)"
    if "rfidUid d = Some uid" "levelPercent d = None" "distanceCm d = None" for d
    by (rule logEvent_Inr [OF ids]) (simp_all add: that q(2))
  show ?thesis
    by (simp add: handleRFIDCheck_def nn assms(1,5) t q(1) log caught_def
                  publishCommand_def publishAlert_def publish_def no_data_def
             split: option.split)
qed

text \<open>
  Claim C3, as stated, fails for a scan with an empty uid: the bin is in the store and
  no credential matches, yet the message is dropped at the \<^verbatim>\<open>!uid\<close> guard, with no log
  row and no alert.
\<close>

theorem rfid_check_empty_uid_no_alert:
  "getBinById ''BIN_01'' demo_store \<noteq> None
   \<and> JSON_parse ''{\"uid\":\"\"}'' = Inr (JObj [(''uid'', JStr '''')])
   \<and> getUserByRFID (JStr '''') demo_store = Inr None
   \<and> handleMessage ''smartbin/BIN_01/rfid_check'' ''{\"uid\":\"\"}'' demo_store = demo_store
   \<and> logs demo_store = [] \<and> published demo_store = []"
  by code_simp

text \<open>
  Claim C3, as amended. For an \<^verbatim>\<open>rfid_check\<close> message whose uid is a non-empty text of
  at most 50 ASCII letters and digits (or an array holding one such text, which the
  queries take for the text), for a bin of the store, the credentials being codes of
  ASCII letters and digits. The holders are the active credentials whose code is the uid
  up to the case of letters. If there is one, the backend appends exactly one success
  log row naming the holder and publishes exactly one open command naming the holder
  (and no alert); if there is none, the backend appends exactly one failure log row and
  publishes exactly one \<^verbatim>\<open>unauthorized_access\<close> alert carrying the uid (and no command).
  Bins and credentials are left as they were.
\<close>

theorem rfid_check_decision:
  fixes binId msg pl uid s st b
  defines "st' \<equiv> handleMessage (''smartbin/'' @ binId @ ''/rfid_check'') msg st"
    and "holders \<equiv> filter (\<lambda>u. map to_upper (rfid_uid u) = map to_upper s \<and> is_active u) (users st)"
  assumes "CHR ''/'' \<notin> set binId"
    and "JSON_parse msg = Inr pl"
    and "get_prop ''uid'' pl = Some uid"
    and "uid = JStr s \<or> uid = JArr [JStr s]"
    and "s \<noteq> []" and "length s \<le> 50" and "list_all is_alnum s"
    and "list_all (\<lambda>u. list_all is_alnum (rfid_uid u)) (users st)"
    and "getBinById binId st = Some b"
  shows "(holders \<noteq> [] \<longrightarrow>
            logs st' = logs st @
              [\<lparr>log_bin_id = binId, log_event_type = ''rfid_scan'',
                log_rfid_uid = Some s, log_user_name = Some (name (hd holders)),
                log_level_percent = None, log_distance_cm = None, log_success = True,
                log_message = Some (''Access granted for '' @ name (hd holders)),
                log_timestamp = now st\<rparr>]
            \<and> published st' = published st @
              [\<lparr>topic = ''smartbin/'' @ binId @ ''/cmd'',
                payload = [(''action'', Val (JStr ''open'')),
                           (''reason'', Val (JStr ''rfid_authorized'')),
                           (''user'', Val (JStr (name (hd holders)))),
                           (''ts'', ISOString (now st))],
                qos = 1, retain = False\<rparr>])
       \<and> (holders = [] \<longrightarrow>
            logs st' = logs st @
              [\<lparr>log_bin_id = binId, log_event_type = ''rfid_scan'',
                log_rfid_uid = Some s, log_user_name = None,
                log_level_percent = None, log_distance_cm = None, log_success = False,
                log_message = Some ''Access denied: Unknown RFID'',
                log_timestamp = now st\<rparr>]
            \<and> published st' = published st @
              [\<lparr>topic = ''smartbin/'' @ binId @ ''/alert'',
                payload = [(''type'', Val (JStr ''unauthorized_access'')),
                           (''uid'', Val uid),
                           (''message'', Template [Lit ''Unauthorized RFID attempt: '', Sub uid]),
                           (''ts'', ISOString (now st))],
                qos = 1, retain = False\<rparr>])
       \<and> bins st' = bins st \<and> users st' = users st"
proof -
  have st': "st' = caught (handleRFIDCheck binId pl st)"
    unfolding st'_def by (rule handleMessage_rfid_check [OF assms(3,4)])
  have "filter (\<lambda>u. same_text (rfid_uid u) s \<and> is_active u) (users st) = holders"
    unfolding holders_def
    by (rule filter_cong) (use assms(9,10) in \<open>simp_all add: same_text_alnum list_all_iff\<close>)
  then have f: "find (\<lambda>u. same_text (rfid_uid u) s \<and> is_active u) (users st)
                = (case holders of [] \<Rightarrow> None | x # ys \<Rightarrow> Some x)"
    by (simp add: find_filter_hd)
  show ?thesis
    unfolding st' handleRFIDCheck_known_bin [OF assms(5,6,7,8,11)] f
    by (cases holders) simp_all
qed

theorem rfid_check_decision_witness:
  "CHR ''/'' \<notin> set ''BIN_01''
   \<and> JSON_parse ''{\"uid\":\"a1b2c3d4\"}'' = Inr (JObj [(''uid'', JStr ''a1b2c3d4'')])
   \<and> JSON_parse ''{\"uid\":[\"A1B2C3D4\"]}'' = Inr (JObj [(''uid'', JArr [JStr ''A1B2C3D4''])])
   \<and> JSON_parse ''{\"uid\":\"DEADBEEF\"}'' = Inr (JObj [(''uid'', JStr ''DEADBEEF'')])
   \<and> list_all is_alnum ''a1b2c3d4'' \<and> list_all is_alnum ''A1B2C3D4'' \<and> list_all is_alnum ''DEADBEEF''
   \<and> list_all (\<lambda>u. list_all is_alnum (rfid_uid u)) (users demo_store)
   \<and> getBinById ''BIN_01'' demo_store \<noteq> None
   \<and> map topic (published (handleMessage ''smartbin/BIN_01/rfid_check'' ''{\"uid\":\"a1b2c3d4\"}''
                              demo_store)) = [''smartbin/BIN_01/cmd'']
   \<and> map log_user_name (logs (handleMessage ''smartbin/BIN_01/rfid_check'' ''{\"uid\":\"a1b2c3d4\"}''
                                 demo_store)) = [Some ''John Doe'']
   \<and> map topic (published (handleMessage ''smartbin/BIN_01/rfid_check'' ''{\"uid\":[\"A1B2C3D4\"]}''
                              demo_store)) = [''smartbin/BIN_01/cmd'']
   \<and> map log_rfid_uid (logs (handleMessage ''smartbin/BIN_01/rfid_check'' ''{\"uid\":[\"A1B2C3D4\"]}''
                                demo_store)) = [Some ''A1B2C3D4'']
   \<and> map topic (published (handleMessage ''smartbin/BIN_01/rfid_check'' ''{\"uid\":\"DEADBEEF\"}''
                              demo_store)) = [''smartbin/BIN_01/alert'']
   \<and> map log_success (logs (handleMessage ''smartbin/BIN_01/rfid_check'' ''{\"uid\":\"DEADBEEF\"}''
                               demo_store)) = [False]"
proof -
  have h1: "CHR ''/'' \<notin> set ''BIN_01''" by simp
  have p1: "JSON_parse ''{\"uid\":\"a1b2c3d4\"}'' = Inr (JObj [(''uid'', JStr ''a1b2c3d4'')])"
    by code_simp
  have p2: "JSON_parse ''{\"uid\":[\"A1B2C3D4\"]}'' = Inr (JObj [(''uid'', JArr [JStr ''A1B2C3D4''])])"
    by code_simp
  have p3: "JSON_parse ''{\"uid\":\"DEADBEEF\"}'' = Inr (JObj [(''uid'', JStr ''DEADBEEF'')])"
    by code_simp
  have g1: "get_prop ''uid'' (JObj [(''uid'', JStr ''a1b2c3d4'')]) = Some (JStr ''a1b2c3d4'')"
    by simp
  have g2: "get_prop ''uid'' (JObj [(''uid'', JArr [JStr ''A1B2C3D4''])])
            = Some (JArr [JStr ''A1B2C3D4''])"
    by simp
  have g3: "get_prop ''uid'' (JObj [(''uid'', JStr ''DEADBEEF'')]) = Some (JStr ''DEADBEEF'')"
    by simp
  have s1: "JStr ''a1b2c3d4'' = JStr ''a1b2c3d4'' \<or> JStr ''a1b2c3d4'' = JArr [JStr ''a1b2c3d4'']"
    by simp
  have s2: "JArr [JStr ''A1B2C3D4''] = JStr ''A1B2C3D4''
            \<or> JArr [JStr ''A1B2C3D4''] = JArr [JStr ''A1B2C3D4'']"
    by simp
  have s3: "JStr ''DEADBEEF'' = JStr ''DEADBEEF'' \<or> JStr ''DEADBEEF'' = JArr [JStr ''DEADBEEF'']"
    by simp
  have n: "''a1b2c3d4'' \<noteq> []" "''A1B2C3D4'' \<noteq> []" "''DEADBEEF'' \<noteq> []"
          "length ''a1b2c3d4'' \<le> 50" "length ''A1B2C3D4'' \<le> 50" "length ''DEADBEEF'' \<le> 50"
    by simp_all
  have a1: "list_all is_alnum ''a1b2c3d4''" by code_simp
  have a2: "list_all is_alnum ''A1B2C3D4''" by code_simp
  have a3: "list_all is_alnum ''DEADBEEF''" by code_simp
  have au: "list_all (\<lambda>u. list_all is_alnum (rfid_uid u)) (users demo_store)" by code_simp
  have h5: "getBinById ''BIN_01'' demo_store = Some (hd (bins demo_store))"
    by (simp add: getBinById_def demo_store_def)
  have d: "logs demo_store = []" "published demo_store = []"
    by (simp_all add: demo_store_def)
  have f1: "filter (\<lambda>u. map to_upper (rfid_uid u) = map to_upper ''a1b2c3d4'' \<and> is_active u)
              (users demo_store)
            = [\<lparr>rfid_uid = ''A1B2C3D4'', name = ''John Doe'', role = ''user'', is_active = True\<rparr>]"
    by code_simp
  have f2: "filter (\<lambda>u. map to_upper (rfid_uid u) = map to_upper ''A1B2C3D4'' \<and> is_active u)
              (users demo_store)
            = [\<lparr>rfid_uid = ''A1B2C3D4'', name = ''John Doe'', role = ''user'', is_active = True\<rparr>]"
    by code_simp
  have f3: "filter (\<lambda>u. map to_upper (rfid_uid u) = map to_upper ''DEADBEEF'' \<and> is_active u)
              (users demo_store) = []"
    by code_simp
  note t1 = rfid_check_decision [OF h1 p1 g1 s1 n(1) n(4) a1 au h5, unfolded f1]
  note t2 = rfid_check_decision [OF h1 p2 g2 s2 n(2) n(5) a2 au h5, unfolded f2]
  note t3 = rfid_check_decision [OF h1 p3 g3 s3 n(3) n(6) a3 au h5, unfolded f3]
  have r1: "map topic (published (handleMessage ''smartbin/BIN_01/rfid_check''
                                    ''{\"uid\":\"a1b2c3d4\"}'' demo_store)) = [''smartbin/BIN_01/cmd'']"
    and r2: "map log_user_name (logs (handleMessage ''smartbin/BIN_01/rfid_check''
                                        ''{\"uid\":\"a1b2c3d4\"}'' demo_store)) = [Some ''John Doe'']"
    using t1 by (simp_all add: d)
  have r3: "map topic (published (handleMessage ''smartbin/BIN_01/rfid_check''
                                    ''{\"uid\":[\"A1B2C3D4\"]}'' demo_store)) = [''smartbin/BIN_01/cmd'']"
    and r4: "map log_rfid_uid (logs (handleMessage ''smartbin/BIN_01/rfid_check''
                                       ''{\"uid\":[\"A1B2C3D4\"]}'' demo_store)) = [Some ''A1B2C3D4'']"
    using t2 by (simp_all add: d)
  have r5: "map topic (published (handleMessage ''smartbin/BIN_01/rfid_check''
                                    ''{\"uid\":\"DEADBEEF\"}'' demo_store)) = [''smartbin/BIN_01/alert'']"
    and r6: "map log_success (logs (handleMessage ''smartbin/BIN_01/rfid_check''
                                      ''{\"uid\":\"DEADBEEF\"}'' demo_store)) = [False]"
    using t3 by (simp_all add: d)
  have b: "getBinById ''BIN_01'' demo_store \<noteq> None" using h5 by simp
  from h1 p1 p2 p3 a1 a2 a3 au b r1 r2 r3 r4 r5 r6 show ?thesis
    by (intro conjI)
qed

text \<open>
  Claim C10. An \<^verbatim>\<open>rfid_check\<close> message whose payload has no \<^verbatim>\<open>uid\<close>, or an empty one,
  is dropped: the store after the message is the store before it, so no log row is
  appended and no command or alert is published, whatever bins and credentials the
  store holds.
\<close>

theorem rfid_check_without_uid_dropped:
  assumes "CHR ''/'' \<notin> set binId"
    and "JSON_parse msg = Inr pl"
    and "get_prop ''uid'' pl = None \<or> get_prop ''uid'' pl = Some (JStr '''')"
  shows "handleMessage (''smartbin/'' @ binId @ ''/rfid_check'') msg st = st"
proof -
  have "caught (handleRFIDCheck binId pl st) = st"
    using assms(3) by (auto simp: handleRFIDCheck_def caught_def)
  then show ?thesis
    by (simp only: handleMessage_rfid_check [OF assms(1,2)])
qed

theorem rfid_check_without_uid_dropped_witness:
  "CHR ''/'' \<notin> set ''BIN_01''
   \<and> JSON_parse ''{\"ts\":\"2025-11-18T10:00:00Z\"}'' = Inr (JObj [(''ts'', JStr ''2025-11-18T10:00:00Z'')])
   \<and> get_prop ''uid'' (JObj [(''ts'', JStr ''2025-11-18T10:00:00Z'')]) = None
   \<and> handleMessage ''smartbin/BIN_01/rfid_check'' ''{\"ts\":\"2025-11-18T10:00:00Z\"}'' demo_store
       = demo_store"
proof -
  have h1: "CHR ''/'' \<notin> set ''BIN_01''" by simp
  have h2: "JSON_parse ''{\"ts\":\"2025-11-18T10:00:00Z\"}''
            = Inr (JObj [(''ts'', JStr ''2025-11-18T10:00:00Z'')])"
    by code_simp
  have h3: "get_prop ''uid'' (JObj [(''ts'', JStr ''2025-11-18T10:00:00Z'')]) = None
            \<or> get_prop ''uid'' (JObj [(''ts'', JStr ''2025-11-18T10:00:00Z'')]) = Some (JStr '''')"
    by simp
  from rfid_check_without_uid_dropped [OF h1 h2 h3, of demo_store] h1 h2
  show ?thesis by simp
qed

section \<open>Configuration updates\<close>

text \<open>
  The SET clause that the route builds, written out: each of the five columns takes the
  value the body gave it, or keeps its own.
\<close>

definition stored_config :: "json \<Rightarrow> bin_row \<Rightarrow> bin_row" where
  "stored_config body b =
     b\<lparr>mode := (if is_truthy (get_prop ''mode'' body) then the (get_prop ''mode'' body) else mode b),
       threshold_cm := (case get_prop ''threshold_cm'' body of None \<Rightarrow> threshold_cm b | Some v \<Rightarrow> v),
       capacity_cm := (case get_prop ''capacity_cm'' body of None \<Rightarrow> capacity_cm b | Some v \<Rightarrow> v),
       bin_name := (if is_truthy (get_prop ''name'' body) then the (get_prop ''name'' body) else bin_name b),
       location := (if is_truthy (get_prop ''location'' body) then the (get_prop ''location'' body)
                    else location b)\<rparr>"

definition route_updates :: "json \<Rightarrow> (string \<times> json) list" where
  "route_updates body =
     given_truthy ''mode'' (get_prop ''mode'' body) @ given ''threshold_cm'' (get_prop ''threshold_cm'' body)
     @ given ''capacity_cm'' (get_prop ''capacity_cm'' body) @ given_truthy ''name'' (get_prop ''name'' body)
     @ given_truthy ''location'' (get_prop ''location'' body)"

lemma route_updates_allowed:
  "filter (\<lambda>kv. fst kv \<in> set allowedFields) (route_updates body) = route_updates body"
  by (simp add: route_updates_def given_def given_truthy_def allowedFields_def split: option.split)

lemma route_updates_fold:
  "foldl set_column b (route_updates body) = stored_config body b"
  by (simp add: route_updates_def given_def given_truthy_def set_column_def stored_config_def
                is_truthy_def
           split: option.split)


lemma stored_config_keeps:
  "bin_id (stored_config body b) = bin_id b"
  "is_online (stored_config body b) = is_online b"
  "last_seen (stored_config body b) = last_seen b"
  "current_level_percent (stored_config body b) = current_level_percent b"
  "current_distance_cm (stored_config body b) = current_distance_cm b"
  by (simp_all add: stored_config_def)

lemma put_bins_config_alt:
  "put_bins_config binId body st =
     (if body = JNull then (500, st)
      else
        (case getBinById binId st of
           None \<Rightarrow> (404, st)
         | Some bin \<Rightarrow>
             if is_truthy (get_prop ''mode'' body)
                \<and> get_prop ''mode'' body \<notin> set [Some (JStr ''AUTO''), Some (JStr ''AUTH'')]
             then (400, st)
             else
               (case updateBinConfig binId (route_updates body) st of
                  Inl e \<Rightarrow> (500, st)
                | Inr (affected, st1) \<Rightarrow>
                    (case getBinById binId st1 of
                       None \<Rightarrow> (500, st1)
                     | Some updatedBin \<Rightarrow>
                         (let st2 = publishConfig binId updatedBin st1 in
                          case logEvent binId ''config_change''
                                  (no_data\<lparr>message := Some ''Configuration updated'',
                                           success := Some True\<rparr>) st2 of
                            Inl e \<Rightarrow> (500, st2)
                          | Inr st3 \<Rightarrow> (200, st3))))))"
  unfolding put_bins_config_def route_updates_def Let_def by (rule refl)

text \<open>The route, case by case.\<close>

lemma put_bins_config_cases:
  "put_bins_config binId body st =
     (if body = JNull then (500, st)
      else if getBinById binId st = None then (404, st)
      else if is_truthy (get_prop ''mode'' body)
              \<and> get_prop ''mode'' body \<notin> set [Some (JStr ''AUTO''), Some (JStr ''AUTH'')]
           then (400, st)
      else if route_updates body = [] then (500, st)
      else if list_ex (\<lambda>kv. is_infinite (snd kv)) (route_updates body) then (500, st)
      else (200,
            st\<lparr>bins := map (\<lambda>b. if bin_id b = binId
                                  then (stored_config body b)\<lparr>updated_at := now st\<rparr> else b)
                           (bins st),
                published := published st @
                  [\<lparr>topic = ''smartbin/'' @ binId @ ''/config'',
                    payload = [(''mode'', Val (mode (stored_config body (the (getBinById binId st))))),
                               (''threshold'',
                                Val (threshold_cm (stored_config body (the (getBinById binId st))))),
                               (''ts'', ISOString (now st))],
                    qos = 1, retain = True\<rparr>],
                logs := logs st @
                  [\<lparr>log_bin_id = binId, log_event_type = ''config_change'', log_rfid_uid = None,
                    log_user_name = None, log_level_percent = None, log_distance_cm = None,
                    log_success = True, log_message = Some ''Configuration updated'',
                    log_timestamp = now st\<rparr>]\<rparr>))"
proof (cases "body = JNull \<or> getBinById binId st = None
              \<or> (is_truthy (get_prop ''mode'' body)
                  \<and> get_prop ''mode'' body \<notin> set [Some (JStr ''AUTO''), Some (JStr ''AUTH'')])")
  case True
  then show ?thesis
    by (auto simp: put_bins_config_alt)
next
  case ok: False
  then obtain b where b: "getBinById binId st = Some b" by auto
  show ?thesis
  proof (cases "route_updates body = []")
    case True
    then have "updateBinConfig binId (route_updates body) st = Inl No_valid_fields"
      by (simp add: updateBinConfig_def)
    with ok b True show ?thesis
      by (simp add: put_bins_config_alt)
  next
    case False
    show ?thesis
    proof (cases "list_ex (\<lambda>kv. is_infinite (snd kv)) (route_updates body)")
      case True
      with False have "updateBinConfig binId (route_updates body) st = Inl ER_BAD_FIELD_ERROR"
        by (simp add: updateBinConfig_def route_updates_allowed)
      with ok b False True show ?thesis
        by (simp add: put_bins_config_alt)
    next
      case fin: False
      have bid: "bin_id b = binId" by (rule getBinById_bin_id [OF b])
      have ids: "binId \<in> set (map bin_id (bins st))" by (rule getBinById_in_ids [OF b])
      let ?g = "\<lambda>b. if bin_id b = binId then (stored_config body b)\<lparr>updated_at := now st\<rparr> else b"
      let ?st1 = "st\<lparr>bins := map ?g (bins st)\<rparr>"
      have g_id: "bin_id (?g x) = bin_id x" for x
        by (simp add: stored_config_keeps)
      have upd: "updateBinConfig binId (route_updates body) st = Inr (True, ?st1)"
        using False fin ids
        by (simp add: updateBinConfig_def route_updates_allowed route_updates_fold)
      have get1: "getBinById binId ?st1 = Some ((stored_config body b)\<lparr>updated_at := now st\<rparr>)"
        using find_bin_map [of ?g binId "bins st", OF g_id] b bid
        by (simp add: getBinById_def)
      have "map bin_id (map ?g (bins st)) = map bin_id (bins st)"
        by (simp add: o_def stored_config_keeps cong: if_cong)
      then have ids1: "binId \<in> set (map bin_id (bins (publishConfig binId x ?st1)))" for x
        using ids by (simp add: publishConfig_def)
      let ?st2 = "publishConfig binId ((stored_config body b)\<lparr>updated_at := now st\<rparr>) ?st1"
      have run: "put_bins_config binId body st =
                 (case logEvent binId ''config_change''
                         (no_data\<lparr>message := Some ''Configuration updated'',
                                  success := Some True\<rparr>) ?st2 of
                    Inl e \<Rightarrow> (500, ?st2)
                  | Inr st3 \<Rightarrow> (200, st3))"
        using ok b False by (auto simp: put_bins_config_alt upd get1 Let_def)
      show ?thesis
        unfolding run logEvent_known_bin [OF ids1]
        using ok b False fin
        by (simp add: publishConfig_def publish_def no_data_def)
    qed
  qed
qed






section \<open>Device telemetry\<close>

text \<open>
  The conversion in the spec's words: \<open>round((capacity - d) / capacity * 100)\<close>, clamped to
  [0,100].
\<close>

definition spec_fill_percent :: "int \<Rightarrow> int \<Rightarrow> int" where
  "spec_fill_percent capacity d =
     max 0 (min 100 (round ((of_int (capacity - d) / of_int capacity) * 100 :: rat)))"

lemma delay_fields [simp]:
  "BIN_MODE (delay n st) = BIN_MODE st"
  "PROXIMITY_THRESHOLD_CM (delay n st) = PROXIMITY_THRESHOLD_CM st"
  "isLidOpen (delay n st) = isLidOpen st"
  "lidOpenTime (delay n st) = lidOpenTime st"
  "lastProximityCheck (delay n st) = lastProximityCheck st"
  "sent (delay n st) = sent st"
  "millis (delay n st) = millis st + of_nat n"
  by (simp_all add: delay_def)

lemma mqtt_publish_fields [simp]:
  "BIN_MODE (mqtt_publish tp pl r st) = BIN_MODE st"
  "PROXIMITY_THRESHOLD_CM (mqtt_publish tp pl r st) = PROXIMITY_THRESHOLD_CM st"
  "isLidOpen (mqtt_publish tp pl r st) = isLidOpen st"
  "lidOpenTime (mqtt_publish tp pl r st) = lidOpenTime st"
  "lastProximityCheck (mqtt_publish tp pl r st) = lastProximityCheck st"
  "millis (mqtt_publish tp pl r st) = millis st"
  "sent (mqtt_publish tp pl r st) = sent st @ [\<lparr>dtopic = tp, dpayload = pl, retained = r\<rparr>]"
  by (simp_all add: mqtt_publish_def)

lemma c_div_nonneg: "0 \<le> a \<Longrightarrow> 0 < b \<Longrightarrow> c_div a b = a div b"
  by (simp add: c_div_def)

lemma level_in_range:
  assumes "0 < d" and "d \<le> BIN_HEIGHT_CM"
  shows "constrain (c_div ((BIN_HEIGHT_CM - d) * 100) BIN_HEIGHT_CM) 0 100
         = ((BIN_HEIGHT_CM - d) * 100) div BIN_HEIGHT_CM"
    and "0 \<le> ((BIN_HEIGHT_CM - d) * 100) div BIN_HEIGHT_CM"
    and "((BIN_HEIGHT_CM - d) * 100) div BIN_HEIGHT_CM \<le> 100"
proof -
  have n: "0 \<le> (BIN_HEIGHT_CM - d) * 100" and p: "0 < BIN_HEIGHT_CM"
    using assms by (simp_all add: BIN_HEIGHT_CM_def)
  show lo: "0 \<le> ((BIN_HEIGHT_CM - d) * 100) div BIN_HEIGHT_CM"
    using n p by (simp add: pos_imp_zdiv_nonneg_iff)
  show hi: "((BIN_HEIGHT_CM - d) * 100) div BIN_HEIGHT_CM \<le> 100"
    using assms by (simp add: BIN_HEIGHT_CM_def)
  show "constrain (c_div ((BIN_HEIGHT_CM - d) * 100) BIN_HEIGHT_CM) 0 100
         = ((BIN_HEIGHT_CM - d) * 100) div BIN_HEIGHT_CM"
    unfolding c_div_nonneg [OF n p] constrain_def using lo hi by simp
qed

lemma floor_of_spec_expression:
  "\<lfloor>(of_int (BIN_HEIGHT_CM - d) / of_int BIN_HEIGHT_CM) * 100 :: rat\<rfloor>
   = ((BIN_HEIGHT_CM - d) * 100) div BIN_HEIGHT_CM"
proof -
  have "(of_int (BIN_HEIGHT_CM - d) / of_int BIN_HEIGHT_CM) * 100
        = (of_int ((BIN_HEIGHT_CM - d) * 100) / of_int BIN_HEIGHT_CM :: rat)"
    by simp
  then show ?thesis
    by (simp only: floor_divide_of_int_eq)
qed

text \<open>
  Claim C5, as stated, fails twice. For the raw distance 1 (capacity 30) the spec's
  rounded conversion gives 97, the firmware publishes 96: the integer division
  truncates. For the raw distance 0 the spec's conversion gives 100, the firmware
  discards the reading and publishes nothing.
\<close>

theorem level_rounding_differs:
  "(0::int) \<le> 1 \<and> 1 \<le> BIN_HEIGHT_CM
   \<and> spec_fill_percent BIN_HEIGHT_CM 1 = 97
   \<and> currentLevelPercent (publishLevelData 1 boot) = 96
   \<and> map dpayload (sent (publishLevelData 1 boot))
       = [Json [(''level'', JNum 96), (''cm'', JNum 1), (''ts'', JStr ''2025-11-18T00:00:00Z'')]]
   \<and> spec_fill_percent BIN_HEIGHT_CM 0 = 100
   \<and> publishLevelData 0 boot = boot"
  by code_simp

text \<open>
  Claim C5, as amended. For every raw distance \<open>d\<close> with \<open>0 < d \<le> capacity\<close> the device
  publishes one unretained telemetry message whose level is
  \<open>((capacity - d) * 100) div capacity\<close>, the quotient \<open>(capacity - d) / capacity * 100\<close>
  rounded down; the level lies in [0,100] and depends on \<open>d\<close> alone, so converting the same
  \<open>d\<close> twice gives the same percentage. A reading of 0 or less, or above the capacity,
  is discarded: nothing is published and nothing changes.
\<close>

theorem level_conversion:
  "(0 < d \<and> d \<le> BIN_HEIGHT_CM \<longrightarrow>
      publishLevelData d st =
        mqtt_publish TOPIC_LEVEL
          (Json [(''level'', JNum (of_int (((BIN_HEIGHT_CM - d) * 100) div BIN_HEIGHT_CM))),
                 (''cm'', JNum (of_int d)), (''ts'', JStr (timestamp (millis st)))]) False
          (st\<lparr>currentLevelPercent := ((BIN_HEIGHT_CM - d) * 100) div BIN_HEIGHT_CM,
              currentDistanceCm := d\<rparr>)
      \<and> 0 \<le> currentLevelPercent (publishLevelData d st)
      \<and> currentLevelPercent (publishLevelData d st) \<le> 100
      \<and> currentLevelPercent (publishLevelData d st)
          = \<lfloor>(of_int (BIN_HEIGHT_CM - d) / of_int BIN_HEIGHT_CM) * 100 :: rat\<rfloor>
      \<and> currentLevelPercent (publishLevelData d st) = currentLevelPercent (publishLevelData d st2))
   \<and> (d \<le> 0 \<or> BIN_HEIGHT_CM < d \<longrightarrow> publishLevelData d st = st)"
proof (intro conjI impI)
  assume "d \<le> 0 \<or> BIN_HEIGHT_CM < d"
  then show "publishLevelData d st = st"
    by (auto simp: publishLevelData_def)
next
  assume a: "0 < d \<and> d \<le> BIN_HEIGHT_CM"
  then have d: "0 < d" "d \<le> BIN_HEIGHT_CM" by simp_all
  have eq: "publishLevelData d s =
        mqtt_publish TOPIC_LEVEL
          (Json [(''level'', JNum (of_int (((BIN_HEIGHT_CM - d) * 100) div BIN_HEIGHT_CM))),
                 (''cm'', JNum (of_int d)), (''ts'', JStr (timestamp (millis s)))]) False
          (s\<lparr>currentLevelPercent := ((BIN_HEIGHT_CM - d) * 100) div BIN_HEIGHT_CM,
              currentDistanceCm := d\<rparr>)" for s
    unfolding publishLevelData_def Let_def level_in_range(1) [OF d] using d by simp
  show "publishLevelData d st =
        mqtt_publish TOPIC_LEVEL
          (Json [(''level'', JNum (of_int (((BIN_HEIGHT_CM - d) * 100) div BIN_HEIGHT_CM))),
                 (''cm'', JNum (of_int d)), (''ts'', JStr (timestamp (millis st)))]) False
          (st\<lparr>currentLevelPercent := ((BIN_HEIGHT_CM - d) * 100) div BIN_HEIGHT_CM,
              currentDistanceCm := d\<rparr>)"
    by (rule eq)
  have lvl: "currentLevelPercent (publishLevelData d s)
             = ((BIN_HEIGHT_CM - d) * 100) div BIN_HEIGHT_CM" for s
    by (simp add: eq mqtt_publish_def)
  show "0 \<le> currentLevelPercent (publishLevelData d st)"
    by (simp only: lvl level_in_range(2) [OF d])
  show "currentLevelPercent (publishLevelData d st) \<le> 100"
    by (simp only: lvl level_in_range(3) [OF d])
  show "currentLevelPercent (publishLevelData d st)
          = \<lfloor>(of_int (BIN_HEIGHT_CM - d) / of_int BIN_HEIGHT_CM) * 100 :: rat\<rfloor>"
    by (simp only: lvl floor_of_spec_expression)
  show "currentLevelPercent (publishLevelData d st) = currentLevelPercent (publishLevelData d st2)"
    by (simp only: lvl)
qed

theorem level_conversion_witness:
  "(0::int) < 15 \<and> 15 \<le> BIN_HEIGHT_CM
   \<and> currentLevelPercent (publishLevelData 15 boot) = 50
   \<and> map retained (sent (publishLevelData 15 boot)) = [False]
   \<and> publishLevelData 31 boot = boot"
proof -
  have h: "(0::int) < 15 \<and> 15 \<le> BIN_HEIGHT_CM" "(31::int) \<le> 0 \<or> BIN_HEIGHT_CM < 31"
    by (simp_all add: BIN_HEIGHT_CM_def)
  have s: "sent boot = []" by (simp add: boot_def)
  from level_conversion [of 15 boot boot] level_conversion [of 31 boot boot] h
  show ?thesis
    by (simp add: BIN_HEIGHT_CM_def s mqtt_publish_def)
qed


section \<open>The lid and the proximity sensor\<close>

lemma reattach_fields [simp]:
  "BIN_MODE (reattach st) = BIN_MODE st"
  "PROXIMITY_THRESHOLD_CM (reattach st) = PROXIMITY_THRESHOLD_CM st"
  "isLidOpen (reattach st) = isLidOpen st"
  "lastProximityCheck (reattach st) = lastProximityCheck st"
  "sent (reattach st) = sent st"
  by (simp_all add: reattach_def)

lemma openLid_fields [simp]:
  "BIN_MODE (openLid r st) = BIN_MODE st"
  "PROXIMITY_THRESHOLD_CM (openLid r st) = PROXIMITY_THRESHOLD_CM st"
  "isLidOpen (openLid r st) = True"
  "sent (openLid r st) = sent st"
  by (simp_all add: openLid_def Let_def)

lemma openLid_stamps: "\<not> isLidOpen st \<Longrightarrow> lidOpenTime (openLid r st) = millis (openLid r st)"
  by (simp add: openLid_def Let_def)

lemma closeLid_fields [simp]:
  "BIN_MODE (closeLid st) = BIN_MODE st"
  "PROXIMITY_THRESHOLD_CM (closeLid st) = PROXIMITY_THRESHOLD_CM st"
  "isLidOpen (closeLid st) = False"
  "sent (closeLid st) = sent st"
  by (simp_all add: closeLid_def Let_def)

lemma publishLevelData_fields [simp]:
  "BIN_MODE (publishLevelData d st) = BIN_MODE st"
  "PROXIMITY_THRESHOLD_CM (publishLevelData d st) = PROXIMITY_THRESHOLD_CM st"
  "isLidOpen (publishLevelData d st) = isLidOpen st"
  "lidOpenTime (publishLevelData d st) = lidOpenTime st"
  "lastProximityCheck (publishLevelData d st) = lastProximityCheck st"
  "millis (publishLevelData d st) = millis st"
  by (simp_all add: publishLevelData_def Let_def)

lemma checkProximity_fields [simp]:
  "BIN_MODE (checkProximity d st) = BIN_MODE st"
  "PROXIMITY_THRESHOLD_CM (checkProximity d st) = PROXIMITY_THRESHOLD_CM st"
  "sent (checkProximity d st) = sent st"
  by (simp_all add: checkProximity_def Let_def)

lemma checkRFID_fields [simp]:
  "BIN_MODE (checkRFID c st) = BIN_MODE st"
  "PROXIMITY_THRESHOLD_CM (checkRFID c st) = PROXIMITY_THRESHOLD_CM st"
  "isLidOpen (checkRFID c st) = isLidOpen st"
  by (simp_all add: checkRFID_def Let_def split: option.split)

lemma checkProximity_debounced:
  "millis st - lastProximityCheck st < PROXIMITY_DEBOUNCE_MS \<Longrightarrow> checkProximity d st = st"
  by (simp add: checkProximity_def)

lemma checkProximity_opens:
  assumes "\<not> millis st - lastProximityCheck st < PROXIMITY_DEBOUNCE_MS"
    and "0 < d" and "d \<le> PROXIMITY_THRESHOLD_CM st" and "\<not> isLidOpen st"
  shows "isLidOpen (checkProximity d st)"
    and "lastProximityCheck (checkProximity d st) = millis (checkProximity d st)"
    and "lidOpenTime (checkProximity d st) = millis (checkProximity d st)"
  using assms by (simp_all add: checkProximity_def Let_def openLid_stamps)

lemma checkProximity_ignored:
  "\<not> millis st - lastProximityCheck st < PROXIMITY_DEBOUNCE_MS
   \<Longrightarrow> d \<le> 0 \<or> PROXIMITY_THRESHOLD_CM st < d \<Longrightarrow> checkProximity d st = st"
  by (auto simp: checkProximity_def)

lemma loop_telemetry_fields [simp]:
  "BIN_MODE (loop_telemetry e st) = BIN_MODE st"
  "PROXIMITY_THRESHOLD_CM (loop_telemetry e st) = PROXIMITY_THRESHOLD_CM st"
  "isLidOpen (loop_telemetry e st) = isLidOpen st"
  "lidOpenTime (loop_telemetry e st) = lidOpenTime st"
  "lastProximityCheck (loop_telemetry e st) = lastProximityCheck st"
  "millis (loop_telemetry e st) = millis st"
  by (simp_all add: loop_telemetry_def Let_def)

lemma loop_stage_modes [simp]:
  "BIN_MODE (loop_proximity e st) = BIN_MODE st"
  "BIN_MODE (loop_rfid e st) = BIN_MODE st"
  "BIN_MODE (loop_auto_close st) = BIN_MODE st"
  by (simp_all add: loop_proximity_def loop_rfid_def loop_auto_close_def)

text \<open>A pass of the loop in AUTO mode with the lid closed, the client connected and no message.\<close>

lemma loop_auto_closed:
  assumes "mqtt_connected st" and "inbox e = []" and "BIN_MODE st = ''AUTO''" and "\<not> isLidOpen st"
  shows "\<exists>s3. millis s3 = millis st + elapsed e
             \<and> lastProximityCheck s3 = lastProximityCheck st
             \<and> PROXIMITY_THRESHOLD_CM s3 = PROXIMITY_THRESHOLD_CM st
             \<and> \<not> isLidOpen s3
             \<and> loop e st =
                 Some (delay 100
                        (loop_auto_close (checkProximity (proximity_reading e) s3)))"
proof -
  define s0 where "s0 = st\<lparr>millis := millis st + elapsed e\<rparr>"
  define s3 where "s3 = loop_telemetry e s0"
  have c0: "mqtt_connected s0"
    using assms by (simp add: s0_def)
  have f: "millis s3 = millis st + elapsed e" "lastProximityCheck s3 = lastProximityCheck st"
          "PROXIMITY_THRESHOLD_CM s3 = PROXIMITY_THRESHOLD_CM st" "\<not> isLidOpen s3"
          "BIN_MODE s3 = ''AUTO''"
    using assms by (simp_all add: s3_def s0_def)
  have p: "loop_proximity e s3 = checkProximity (proximity_reading e) s3"
    using f by (simp add: loop_proximity_def)
  have r: "loop_rfid e (checkProximity (proximity_reading e) s3)
           = checkProximity (proximity_reading e) s3"
    using f by (simp add: loop_rfid_def)
  have "loop e st =
          Some (delay 100 (loop_auto_close (checkProximity (proximity_reading e) s3)))"
    using assms(2) c0
    by (simp add: loop_def Let_def s0_def [symmetric] mqttClient_loop_def s3_def [symmetric] p r)
  with f show ?thesis by blast
qed

text \<open>
  Claim C8, as stated, fails in its second half: a reading taken after the debounce
  interval, in AUTO mode with the lid closed, with distance 0 (no echo), is at or below
  the threshold and yet opens nothing, because the firmware asks for \<open>distance > 0\<close>.
\<close>

theorem proximity_no_echo_no_transition:
  "\<not> (millis (boot\<lparr>millis := 5000\<rparr>) - lastProximityCheck (boot\<lparr>millis := 5000\<rparr>)
        < PROXIMITY_DEBOUNCE_MS)
   \<and> BIN_MODE (boot\<lparr>millis := 5000\<rparr>) = ''AUTO'' \<and> \<not> isLidOpen (boot\<lparr>millis := 5000\<rparr>)
   \<and> (0::int) \<le> PROXIMITY_THRESHOLD_CM (boot\<lparr>millis := 5000\<rparr>)
   \<and> checkProximity 0 (boot\<lparr>millis := 5000\<rparr>) = boot\<lparr>millis := 5000\<rparr>
   \<and> map_option isLidOpen
        (loop \<lparr>elapsed = 5000, connect_results = [True], inbox = [], level_reading = 0,
               proximity_reading = 0, card_present = None\<rparr> boot) = Some False"
  by code_simp

text \<open>
  Claim C8, as amended. A proximity check made less than the debounce interval (2000 ms,
  on the wrapping 32-bit clock) after the last honoured trigger changes nothing,
  whatever the reading. A check at or beyond the interval with a distance greater than 0
  and at or below the threshold, with the lid closed, opens the lid and becomes the last
  honoured trigger; a distance of 0 or less, or above the threshold, changes nothing.
  In a pass of the loop in AUTO mode with the lid closed (client connected, no message
  delivered) the lid is still closed after the pass in the first case and open in the
  second.
\<close>

theorem proximity_debounce:
  "(millis st - lastProximityCheck st < PROXIMITY_DEBOUNCE_MS \<longrightarrow> checkProximity d st = st)
   \<and> (\<not> millis st - lastProximityCheck st < PROXIMITY_DEBOUNCE_MS
        \<and> 0 < d \<and> d \<le> PROXIMITY_THRESHOLD_CM st \<and> \<not> isLidOpen st \<longrightarrow>
          isLidOpen (checkProximity d st)
          \<and> lastProximityCheck (checkProximity d st) = millis (checkProximity d st))
   \<and> (\<not> millis st - lastProximityCheck st < PROXIMITY_DEBOUNCE_MS
        \<and> (d \<le> 0 \<or> PROXIMITY_THRESHOLD_CM st < d) \<longrightarrow> checkProximity d st = st)
   \<and> (mqtt_connected st \<and> inbox e = [] \<and> BIN_MODE st = ''AUTO'' \<and> \<not> isLidOpen st \<longrightarrow>
        (\<exists>st'. loop e st = Some st'
            \<and> (millis st + elapsed e - lastProximityCheck st < PROXIMITY_DEBOUNCE_MS
                  \<longrightarrow> \<not> isLidOpen st')
            \<and> (\<not> millis st + elapsed e - lastProximityCheck st < PROXIMITY_DEBOUNCE_MS
                  \<and> 0 < proximity_reading e
                  \<and> proximity_reading e \<le> PROXIMITY_THRESHOLD_CM st \<longrightarrow> isLidOpen st')))"
proof (intro conjI impI)
  assume "millis st - lastProximityCheck st < PROXIMITY_DEBOUNCE_MS"
  then show "checkProximity d st = st" by (rule checkProximity_debounced)
next
  assume a: "\<not> millis st - lastProximityCheck st < PROXIMITY_DEBOUNCE_MS
             \<and> 0 < d \<and> d \<le> PROXIMITY_THRESHOLD_CM st \<and> \<not> isLidOpen st"
  then show "isLidOpen (checkProximity d st)"
    by (simp add: checkProximity_opens(1))
  from a show "lastProximityCheck (checkProximity d st) = millis (checkProximity d st)"
    by (simp add: checkProximity_opens(2))
next
  assume "\<not> millis st - lastProximityCheck st < PROXIMITY_DEBOUNCE_MS
          \<and> (d \<le> 0 \<or> PROXIMITY_THRESHOLD_CM st < d)"
  then show "checkProximity d st = st"
    using checkProximity_ignored by blast
next
  assume "mqtt_connected st \<and> inbox e = [] \<and> BIN_MODE st = ''AUTO'' \<and> \<not> isLidOpen st"
  then obtain s3 where
    m: "millis s3 = millis st + elapsed e" and l: "lastProximityCheck s3 = lastProximityCheck st"
    and t: "PROXIMITY_THRESHOLD_CM s3 = PROXIMITY_THRESHOLD_CM st" and c: "\<not> isLidOpen s3"
    and run: "loop e st =
                 Some (delay 100
                        (loop_auto_close (checkProximity (proximity_reading e) s3)))"
    using loop_auto_closed [of st e] by blast
  define s4 where "s4 = checkProximity (proximity_reading e) s3"
  define st' where "st' = delay 100 (loop_auto_close s4)"
  have r: "loop e st = Some st'"
    by (simp add: run st'_def s4_def)
  have p1: "\<not> isLidOpen st'"
    if "millis st + elapsed e - lastProximityCheck st < PROXIMITY_DEBOUNCE_MS"
  proof -
    from that have "s4 = s3"
      unfolding s4_def by (intro checkProximity_debounced) (simp add: m l)
    then show ?thesis
      using c by (simp add: st'_def loop_auto_close_def)
  qed
  have p2: "isLidOpen st'"
    if "\<not> millis st + elapsed e - lastProximityCheck st < PROXIMITY_DEBOUNCE_MS
        \<and> 0 < proximity_reading e \<and> proximity_reading e \<le> PROXIMITY_THRESHOLD_CM st"
  proof -
    from that have h: "\<not> millis s3 - lastProximityCheck s3 < PROXIMITY_DEBOUNCE_MS"
      "0 < proximity_reading e" "proximity_reading e \<le> PROXIMITY_THRESHOLD_CM s3"
      by (simp_all add: m l t)
    have o: "isLidOpen s4" and z: "lidOpenTime s4 = millis s4"
      unfolding s4_def by (rule checkProximity_opens [OF h c])+
    show ?thesis
      by (simp add: st'_def loop_auto_close_def o z LID_AUTO_CLOSE_MS_def)
  qed
  show "\<exists>st'. loop e st = Some st'
            \<and> (millis st + elapsed e - lastProximityCheck st < PROXIMITY_DEBOUNCE_MS
                  \<longrightarrow> \<not> isLidOpen st')
            \<and> (\<not> millis st + elapsed e - lastProximityCheck st < PROXIMITY_DEBOUNCE_MS
                  \<and> 0 < proximity_reading e
                  \<and> proximity_reading e \<le> PROXIMITY_THRESHOLD_CM st \<longrightarrow> isLidOpen st')"
    using r p1 p2 by blast
qed

theorem proximity_debounce_witness:
  "millis (boot\<lparr>millis := 1000\<rparr>) - lastProximityCheck (boot\<lparr>millis := 1000\<rparr>)
     < PROXIMITY_DEBOUNCE_MS
   \<and> checkProximity 20 (boot\<lparr>millis := 1000\<rparr>) = boot\<lparr>millis := 1000\<rparr>
   \<and> \<not> millis (boot\<lparr>millis := 5000\<rparr>) - lastProximityCheck (boot\<lparr>millis := 5000\<rparr>)
        < PROXIMITY_DEBOUNCE_MS
   \<and> (0::int) < 20 \<and> 20 \<le> PROXIMITY_THRESHOLD_CM (boot\<lparr>millis := 5000\<rparr>)
   \<and> \<not> isLidOpen (boot\<lparr>millis := 5000\<rparr>)
   \<and> isLidOpen (checkProximity 20 (boot\<lparr>millis := 5000\<rparr>))"
proof -
  have h1: "millis (boot\<lparr>millis := 1000\<rparr>) - lastProximityCheck (boot\<lparr>millis := 1000\<rparr>)
              < PROXIMITY_DEBOUNCE_MS"
    by (simp add: boot_def PROXIMITY_DEBOUNCE_MS_def)
  have h2: "\<not> millis (boot\<lparr>millis := 5000\<rparr>) - lastProximityCheck (boot\<lparr>millis := 5000\<rparr>)
              < PROXIMITY_DEBOUNCE_MS
            \<and> (0::int) < 20 \<and> 20 \<le> PROXIMITY_THRESHOLD_CM (boot\<lparr>millis := 5000\<rparr>)
            \<and> \<not> isLidOpen (boot\<lparr>millis := 5000\<rparr>)"
    by (simp add: boot_def PROXIMITY_DEBOUNCE_MS_def)
  from proximity_debounce [of "boot\<lparr>millis := 1000\<rparr>" 20] h1
  have a: "checkProximity 20 (boot\<lparr>millis := 1000\<rparr>) = boot\<lparr>millis := 1000\<rparr>"
    by blast
  from proximity_debounce [of "boot\<lparr>millis := 5000\<rparr>" 20] h2
  have b: "isLidOpen (checkProximity 20 (boot\<lparr>millis := 5000\<rparr>))"
    by blast
  from h1 h2 a b show ?thesis by blast
qed


section \<open>The operating mode\<close>

lemma blink_fields [simp]:
  "BIN_MODE (blink n st) = BIN_MODE st"
  "PROXIMITY_THRESHOLD_CM (blink n st) = PROXIMITY_THRESHOLD_CM st"
  "sent (blink n st) = sent st"
  by (induction n arbitrary: st) simp_all

lemma handleCommand_fields [simp]:
  "BIN_MODE (handleCommand doc st) = BIN_MODE st"
  "sent (handleCommand doc st) = sent st"
  by (simp_all add: handleCommand_def Let_def)

lemma handleConfig_sent [simp]: "sent (handleConfig doc st) = sent st"
  by (simp add: handleConfig_def Let_def split: option.split)















section \<open>Retained messages\<close>

text \<open>
  The retain rule of the backend: a published message is retained exactly when its topic
  is a configuration topic. The retain flags of the device, class by class.
\<close>

definition config_only_retained :: "outbound \<Rightarrow> bool" where
  "config_only_retained m = (retain m = ends_with ''/config'' (topic m))"

definition device_retain_rule :: "device_msg \<Rightarrow> bool" where
  "device_retain_rule m =
     ((dtopic m = TOPIC_LEVEL \<longrightarrow> \<not> retained m)
      \<and> (dtopic m = TOPIC_RFID \<longrightarrow> \<not> retained m)
      \<and> (dtopic m = TOPIC_STATUS \<longrightarrow> retained m))"

definition sent_flags :: "device \<Rightarrow> (string \<times> bool) list" where
  "sent_flags st = map (\<lambda>m. (dtopic m, retained m)) (sent st)"

lemma ends_with_suffix: "ends_with suf (xs @ suf)"
  by (simp add: ends_with_def)

lemma ends_with_last: "ends_with suf s \<Longrightarrow> suf \<noteq> [] \<Longrightarrow> last s = last suf"
proof -
  assume e: "ends_with suf s" and n: "suf \<noteq> []"
  then have d: "drop (length s - length suf) s = suf" and l: "length suf \<le> length s"
    by (simp_all add: ends_with_def)
  from n l have "length s - length suf < length s"
    by (cases suf) auto
  then have "last (drop (length s - length suf) s) = last s"
    by (rule last_drop)
  with d show ?thesis by simp
qed

lemma topic_classes:
  "ends_with ''/config'' (''smartbin/'' @ binId @ ''/config'')"
  "\<not> ends_with ''/config'' (''smartbin/'' @ binId @ ''/cmd'')"
  "\<not> ends_with ''/config'' (''smartbin/'' @ binId @ ''/alert'')"
proof -
  have "''smartbin/'' @ binId @ ''/config'' = (''smartbin/'' @ binId) @ ''/config''" by simp
  then show "ends_with ''/config'' (''smartbin/'' @ binId @ ''/config'')"
    by (simp only: ends_with_suffix)
  show "\<not> ends_with ''/config'' (''smartbin/'' @ binId @ ''/cmd'')"
    using ends_with_last [of "''/config''" "''smartbin/'' @ binId @ ''/cmd''"] by auto
  show "\<not> ends_with ''/config'' (''smartbin/'' @ binId @ ''/alert'')"
    using ends_with_last [of "''/config''" "''smartbin/'' @ binId @ ''/alert''"] by auto
qed

lemma publish_rule:
  "list_all config_only_retained (published (publishCommand binId c st))
     = list_all config_only_retained (published st)"
  "list_all config_only_retained (published (publishAlert binId a st))
     = list_all config_only_retained (published st)"
  "list_all config_only_retained (published (publishConfig binId cfg st))
     = list_all config_only_retained (published st)"
  using topic_classes [of binId]
  by (simp_all add: publishCommand_def publishAlert_def publishConfig_def publish_def
                    config_only_retained_def)

lemma logEvent_published: "logEvent binId ty d st = Inr st' \<Longrightarrow> published st' = published st"
  by (drule logEvent_tables) simp

lemma updateBinLevel_published:
  "updateBinLevel binId lv cv st = Inr st1 \<Longrightarrow> published st1 = published st"
  by (drule updateBinLevel_bins) auto

lemma command_alert_rules:
  "config_only_retained \<lparr>topic = ''smartbin/'' @ binId @ ''/cmd'', payload = pl, qos = q,
                          retain = False\<rparr>"
  "config_only_retained \<lparr>topic = ''smartbin/'' @ binId @ ''/alert'', payload = pl, qos = q,
                          retain = False\<rparr>"
  using topic_classes(2,3) [of binId] by (simp_all add: config_only_retained_def)

lemma handleLevelData_rule:
  assumes "list_all config_only_retained (published st)"
  shows "list_all config_only_retained (published (caught (handleLevelData binId pl st)))"
proof -
  have "published (caught (handleLevelData binId pl st)) = published st
        \<or> (\<exists>a. published (caught (handleLevelData binId pl st))
                 = published st @ [\<lparr>topic = ''smartbin/'' @ binId @ ''/alert'', payload = a,
                                     qos = 1, retain = False\<rparr>])"
    by (auto simp: handleLevelData_def caught_def publishAlert_def
             dest!: updateBinLevel_published logEvent_published
             split: option.splits sum.splits if_splits)
  then show ?thesis
    using assms command_alert_rules(2) [of binId] by auto
qed

lemma handleRFIDCheck_rule:
  assumes "list_all config_only_retained (published st)"
  shows "list_all config_only_retained (published (caught (handleRFIDCheck binId pl st)))"
proof -
  have "published (caught (handleRFIDCheck binId pl st)) = published st
        \<or> (\<exists>a. published (caught (handleRFIDCheck binId pl st))
                 = published st @ [\<lparr>topic = ''smartbin/'' @ binId @ ''/cmd'', payload = a,
                                     qos = 1, retain = False\<rparr>])
        \<or> (\<exists>a. published (caught (handleRFIDCheck binId pl st))
                 = published st @ [\<lparr>topic = ''smartbin/'' @ binId @ ''/alert'', payload = a,
                                     qos = 1, retain = False\<rparr>])"
    by (auto simp: handleRFIDCheck_def caught_def publishCommand_def publishAlert_def
             dest!: logEvent_published
             split: option.splits sum.splits if_splits)
  then show ?thesis
    using assms command_alert_rules [of binId] by auto
qed

lemma handleStatusUpdate_rule:
  assumes "list_all config_only_retained (published st)"
  shows "list_all config_only_retained (published (caught (handleStatusUpdate binId status st)))"
proof -
  have u: "published (updateBinStatus binId b st) = published st" for b
    by (simp add: updateBinStatus_def)
  show ?thesis
    using assms
    by (auto simp: handleStatusUpdate_def caught_def Let_def u
             dest: logEvent_published split: sum.splits)
qed

lemma handleMessage_rule:
  assumes "list_all config_only_retained (published st)"
  shows "list_all config_only_retained (published (handleMessage tp msg st))"
  using assms handleLevelData_rule [OF assms] handleRFIDCheck_rule [OF assms]
        handleStatusUpdate_rule [OF assms]
  by (simp add: handleMessage_def Let_def split: sum.split)


lemma config_message_rule:
  "config_only_retained \<lparr>topic = ''smartbin/'' @ binId @ ''/config'', payload = pl, qos = q,
                          retain = True\<rparr>"
  using topic_classes(1) [of binId] by (simp add: config_only_retained_def)

lemma put_bins_config_rule:
  assumes "list_all config_only_retained (published st)"
  shows "list_all config_only_retained (published (snd (put_bins_config binId body st)))"
proof -
  let ?m = "\<lparr>topic = ''smartbin/'' @ binId @ ''/config'',
              payload = [(''mode'', Val (mode (stored_config body (the (getBinById binId st))))),
                         (''threshold'',
                          Val (threshold_cm (stored_config body (the (getBinById binId st))))),
                         (''ts'', ISOString (now st))],
              qos = 1, retain = True\<rparr>"
  have "published (snd (put_bins_config binId body st)) = published st
        \<or> published (snd (put_bins_config binId body st)) = published st @ [?m]"
    unfolding put_bins_config_cases by simp
  then show ?thesis
    using assms config_message_rule [of binId] by auto
qed

lemma post_bins_command_rule:
  assumes "list_all config_only_retained (published st)"
  shows "list_all config_only_retained (published (snd (post_bins_command binId body st)))"
proof -
  have "published (snd (post_bins_command binId body st)) = published st
        \<or> (\<exists>c. published (snd (post_bins_command binId body st))
                 = published (publishCommand binId c st))"
    by (auto simp: post_bins_command_def Let_def
             dest: logEvent_published
             split: option.splits json.splits sum.splits)
  then show ?thesis
    using assms by (auto simp: publish_rule)
qed

lemma device_topics_differ:
  "TOPIC_LEVEL \<noteq> TOPIC_STATUS" "TOPIC_RFID \<noteq> TOPIC_STATUS"
  by (simp_all add: TOPIC_LEVEL_def TOPIC_RFID_def TOPIC_STATUS_def)

lemma device_message_rules:
  "device_retain_rule \<lparr>dtopic = TOPIC_LEVEL, dpayload = p, retained = False\<rparr>"
  "device_retain_rule \<lparr>dtopic = TOPIC_RFID, dpayload = p, retained = False\<rparr>"
  "device_retain_rule \<lparr>dtopic = TOPIC_STATUS, dpayload = p, retained = True\<rparr>"
  using device_topics_differ by (simp_all add: device_retain_rule_def)

lemma loop_telemetry_rule:
  assumes "list_all device_retain_rule (sent st)"
  shows "list_all device_retain_rule (sent (loop_telemetry e st))"
proof -
  have "sent (loop_telemetry e st) = sent st
        \<or> (\<exists>p. sent (loop_telemetry e st)
                 = sent st @ [\<lparr>dtopic = TOPIC_LEVEL, dpayload = p, retained = False\<rparr>])"
    by (simp add: loop_telemetry_def publishLevelData_def Let_def)
  then show ?thesis
    using assms device_message_rules(1) by auto
qed

lemma loop_rfid_rule:
  assumes "list_all device_retain_rule (sent st)"
  shows "list_all device_retain_rule (sent (loop_rfid e st))"
proof -
  have "sent (loop_rfid e st) = sent st
        \<or> (\<exists>p. sent (loop_rfid e st)
                 = sent st @ [\<lparr>dtopic = TOPIC_RFID, dpayload = p, retained = False\<rparr>])"
    by (simp add: loop_rfid_def checkRFID_def Let_def split: option.split)
  then show ?thesis
    using assms device_message_rules(2) by auto
qed

lemma loop_quiet_stages [simp]:
  "sent (loop_proximity e st) = sent st"
  "sent (loop_auto_close st) = sent st"
  by (simp_all add: loop_proximity_def loop_auto_close_def)

lemma mqttCallback_sent [simp]: "sent (mqttCallback tp doc st) = sent st"
  by (simp add: mqttCallback_def split: option.split)

lemma mqttClient_loop_sent [simp]: "sent (mqttClient_loop ms st) = sent st"
  unfolding mqttClient_loop_def by (induction ms arbitrary: st) simp_all

lemma reconnectMQTT_rule:
  "list_all device_retain_rule (sent st) \<Longrightarrow> reconnectMQTT attempts st = Some st'
   \<Longrightarrow> list_all device_retain_rule (sent st')"
proof (induction attempts arbitrary: st)
  case Nil
  then show ?case by (simp split: if_splits)
next
  case (Cons ok attempts)
  show ?case
  proof (cases "mqtt_connected st")
    case True
    with Cons.prems show ?thesis by simp
  next
    case False
    define s1 where
      "s1 = (if ok then
               (mqtt_publish TOPIC_STATUS (Text ''online'') True
                  (st\<lparr>mqtt_connected := True,
                      will := Some \<lparr>dtopic = TOPIC_STATUS, dpayload = Text ''offline'',
                                    retained = False\<rparr>\<rparr>))
                 \<lparr>subscribed := subscribed st @ [TOPIC_CMD, TOPIC_CONFIG], LED_GREEN := True\<rparr>
             else (delay 5000 (st\<lparr>LED_RED := True\<rparr>))\<lparr>LED_RED := False\<rparr>)"
    have "sent s1 = sent st
          \<or> sent s1 = sent st @ [\<lparr>dtopic = TOPIC_STATUS, dpayload = Text ''online'',
                                   retained = True\<rparr>]"
      by (simp add: s1_def)
    then have m: "list_all device_retain_rule (sent s1)"
      using Cons.prems(1) device_message_rules(3) by auto
    have "reconnectMQTT (ok # attempts) st = reconnectMQTT attempts s1"
      using False by (simp add: s1_def Let_def mqtt_publish_def)
    with Cons.prems have "reconnectMQTT attempts s1 = Some st'" by simp
    from Cons.IH [OF m this] show ?thesis .
  qed
qed

lemma loop_rule:
  assumes "list_all device_retain_rule (sent st)" and "loop e st = Some st'"
  shows "list_all device_retain_rule (sent st')"
proof -
  define s0 where "s0 = st\<lparr>millis := millis st + elapsed e\<rparr>"
  have v0: "list_all device_retain_rule (sent s0)" using assms(1) by (simp add: s0_def)
  define c where
    "c = (if \<not> mqtt_connected s0 then reconnectMQTT (connect_results e) s0 else Some s0)"
  have l: "loop e st =
           (case c of
              None \<Rightarrow> None
            | Some st1 \<Rightarrow>
                Some (delay 100 (loop_auto_close (loop_rfid e (loop_proximity e
                        (loop_telemetry e (mqttClient_loop (inbox e) st1)))))))"
    unfolding loop_def Let_def c_def s0_def by (rule refl)
  from assms(2) l obtain st1 where
    c1: "c = Some st1"
    and r: "st' = delay 100 (loop_auto_close (loop_rfid e (loop_proximity e
                     (loop_telemetry e (mqttClient_loop (inbox e) st1)))))"
    by (cases c) simp_all
  have v1: "list_all device_retain_rule (sent st1)"
  proof (cases "mqtt_connected s0")
    case True
    with c1 v0 show ?thesis by (simp add: c_def)
  next
    case False
    with c1 have "reconnectMQTT (connect_results e) s0 = Some st1" by (simp add: c_def)
    from reconnectMQTT_rule [OF v0 this] show ?thesis .
  qed
  then have "list_all device_retain_rule (sent (mqttClient_loop (inbox e) st1))" by simp
  then have "list_all device_retain_rule
               (sent (loop_telemetry e (mqttClient_loop (inbox e) st1)))"
    by (rule loop_telemetry_rule)
  then have "list_all device_retain_rule
               (sent (loop_proximity e (loop_telemetry e (mqttClient_loop (inbox e) st1))))"
    by simp
  then have "list_all device_retain_rule
               (sent (loop_rfid e (loop_proximity e
                        (loop_telemetry e (mqttClient_loop (inbox e) st1)))))"
    by (rule loop_rfid_rule)
  then show ?thesis by (simp add: r)
qed

text \<open>
  The last will. \<^verbatim>\<open>connect\<close> registers it, and nothing else touches it: after a
  connection it is the unretained \<^verbatim>\<open>offline\<close> status message.
\<close>

definition will_rule :: "device \<Rightarrow> bool" where
  "will_rule st =
     (will st = None
      \<or> will st = Some \<lparr>dtopic = TOPIC_STATUS, dpayload = Text ''offline'', retained = False\<rparr>)"

lemma will_delay [simp]: "will (delay n st) = will st"
  by (simp add: delay_def)

lemma will_mqtt_publish [simp]: "will (mqtt_publish tp pl r st) = will st"
  by (simp add: mqtt_publish_def)

lemma will_lid [simp]:
  "will (reattach st) = will st"
  "will (openLid reason st) = will st"
  "will (closeLid st) = will st"
  by (simp_all add: reattach_def openLid_def closeLid_def Let_def)

lemma will_blink [simp]: "will (blink n st) = will st"
  by (induction n arbitrary: st) simp_all

lemma will_mqttCallback [simp]: "will (mqttCallback tp doc st) = will st"
  by (simp add: mqttCallback_def handleCommand_def handleConfig_def Let_def split: option.split)

lemma will_mqttClient_loop [simp]: "will (mqttClient_loop ms st) = will st"
  unfolding mqttClient_loop_def by (induction ms arbitrary: st) simp_all

lemma will_stages [simp]:
  "will (loop_telemetry e st) = will st"
  "will (loop_proximity e st) = will st"
  "will (loop_rfid e st) = will st"
  "will (loop_auto_close st) = will st"
  by (simp_all add: loop_telemetry_def publishLevelData_def loop_proximity_def checkProximity_def
                    loop_rfid_def checkRFID_def loop_auto_close_def Let_def
               split: option.split)

lemma reconnectMQTT_connected: "mqtt_connected st \<Longrightarrow> reconnectMQTT attempts st = Some st"
  by (cases attempts) simp_all

lemma reconnectMQTT_will:
  "\<not> mqtt_connected st \<Longrightarrow> reconnectMQTT attempts st = Some st'
   \<Longrightarrow> will st' = Some \<lparr>dtopic = TOPIC_STATUS, dpayload = Text ''offline'', retained = False\<rparr>"
proof (induction attempts arbitrary: st)
  case Nil
  then show ?case by simp
next
  case (Cons ok attempts)
  show ?case
  proof (cases ok)
    case True
    define s1 where
      "s1 = (mqtt_publish TOPIC_STATUS (Text ''online'') True
               (st\<lparr>mqtt_connected := True,
                   will := Some \<lparr>dtopic = TOPIC_STATUS, dpayload = Text ''offline'',
                                 retained = False\<rparr>\<rparr>))
              \<lparr>subscribed := subscribed st @ [TOPIC_CMD, TOPIC_CONFIG], LED_GREEN := True\<rparr>"
    have c: "mqtt_connected s1"
      by (simp add: s1_def mqtt_publish_def)
    have w: "will s1 = Some \<lparr>dtopic = TOPIC_STATUS, dpayload = Text ''offline'', retained = False\<rparr>"
      by (simp add: s1_def)
    have "reconnectMQTT (ok # attempts) st = reconnectMQTT attempts s1"
      using True Cons.prems(1) by (simp add: s1_def Let_def mqtt_publish_def)
    with Cons.prems(2) reconnectMQTT_connected [OF c, of attempts] have "st' = s1" by simp
    with w show ?thesis by simp
  next
    case False
    define s1 where "s1 = (delay 5000 (st\<lparr>LED_RED := True\<rparr>))\<lparr>LED_RED := False\<rparr>"
    have c: "\<not> mqtt_connected s1"
      using Cons.prems(1) by (simp add: s1_def delay_def)
    have "reconnectMQTT (ok # attempts) st = reconnectMQTT attempts s1"
      using False Cons.prems(1) by (simp add: s1_def)
    with Cons.prems(2) have "reconnectMQTT attempts s1 = Some st'" by simp
    from Cons.IH [OF c this] show ?thesis .
  qed
qed

lemma reconnectMQTT_will_rule:
  assumes "will_rule st" and "reconnectMQTT attempts st = Some st'"
  shows "will_rule st'"
proof (cases "mqtt_connected st")
  case True
  with assms reconnectMQTT_connected [OF True, of attempts] show ?thesis by simp
next
  case False
  from reconnectMQTT_will [OF False assms(2)] show ?thesis
    by (simp add: will_rule_def)
qed

lemma loop_will_rule:
  assumes "will_rule st" and "loop e st = Some st'"
  shows "will_rule st'"
proof -
  define s0 where "s0 = st\<lparr>millis := millis st + elapsed e\<rparr>"
  have v0: "will_rule s0" using assms(1) by (simp add: s0_def will_rule_def)
  define c where
    "c = (if \<not> mqtt_connected s0 then reconnectMQTT (connect_results e) s0 else Some s0)"
  have l: "loop e st =
           (case c of
              None \<Rightarrow> None
            | Some st1 \<Rightarrow>
                Some (delay 100 (loop_auto_close (loop_rfid e (loop_proximity e
                        (loop_telemetry e (mqttClient_loop (inbox e) st1)))))))"
    unfolding loop_def Let_def c_def s0_def by (rule refl)
  from assms(2) l obtain st1 where
    c1: "c = Some st1"
    and r: "st' = delay 100 (loop_auto_close (loop_rfid e (loop_proximity e
                     (loop_telemetry e (mqttClient_loop (inbox e) st1)))))"
    by (cases c) simp_all
  have v1: "will_rule st1"
  proof (cases "mqtt_connected s0")
    case True
    with c1 v0 show ?thesis by (simp add: c_def)
  next
    case False
    with c1 have "reconnectMQTT (connect_results e) s0 = Some st1" by (simp add: c_def)
    from reconnectMQTT_will_rule [OF v0 this] show ?thesis .
  qed
  have "will st' = will st1" by (simp add: r)
  with v1 show ?thesis by (simp add: will_rule_def)
qed

text \<open>
  Claim C7, as stated, fails on the device: when it connects, the firmware publishes its
  status message \<^verbatim>\<open>online\<close> with the retained flag set, so configuration is not the only
  retained class.
\<close>

theorem device_status_is_retained:
  "map_option sent_flags (reconnectMQTT [True] boot) = Some [(''smartbin/BIN_01/status'', True)]"
  by code_simp

text \<open>
  Claim C7, as amended. On the backend, configuration messages are the only retained
  class: every publish of a configuration sets retain, no publish of a command or an
  alert does, and the rule (retained exactly when the topic is a configuration topic) is
  kept by every inbound message and by both routes that publish. On the device,
  telemetry and \<^verbatim>\<open>rfid_check\<close> messages are published without retain and the status
  message is published with retain; every pass of the loop keeps that rule. The last will
  that a connection registers is the status message \<^verbatim>\<open>offline\<close>, not retained, and no
  pass of the loop registers another.
\<close>

theorem retain_flags:
  "(list_all config_only_retained (published st) \<longrightarrow>
      list_all config_only_retained (published (handleMessage tp msg st))
      \<and> list_all config_only_retained (published (snd (put_bins_config binId body st)))
      \<and> list_all config_only_retained (published (snd (post_bins_command binId body st))))
   \<and> map retain (drop (length (published st)) (published (publishConfig binId cfg st))) = [True]
   \<and> map retain (drop (length (published st)) (published (publishCommand binId pl st))) = [False]
   \<and> map retain (drop (length (published st)) (published (publishAlert binId pl st))) = [False]
   \<and> (list_all device_retain_rule (sent d) \<and> loop e d = Some d' \<longrightarrow>
        list_all device_retain_rule (sent d'))
   \<and> (\<not> mqtt_connected d \<and> reconnectMQTT attempts d = Some d2 \<longrightarrow>
        will d2 = Some \<lparr>dtopic = TOPIC_STATUS, dpayload = Text ''offline'', retained = False\<rparr>)
   \<and> (will_rule d \<and> loop e d = Some d' \<longrightarrow> will_rule d')"
proof -
  have 1: "list_all config_only_retained (published st) \<longrightarrow>
      list_all config_only_retained (published (handleMessage tp msg st))
      \<and> list_all config_only_retained (published (snd (put_bins_config binId body st)))
      \<and> list_all config_only_retained (published (snd (post_bins_command binId body st)))"
    using handleMessage_rule [of st tp msg] put_bins_config_rule [of st binId body]
          post_bins_command_rule [of st binId body]
    by blast
  have 2: "map retain (drop (length (published st)) (published (publishConfig binId cfg st))) = [True]"
    "map retain (drop (length (published st)) (published (publishCommand binId pl st))) = [False]"
    "map retain (drop (length (published st)) (published (publishAlert binId pl st))) = [False]"
    by (simp_all add: publishConfig_def publishCommand_def publishAlert_def publish_def)
  have 3: "list_all device_retain_rule (sent d) \<and> loop e d = Some d' \<longrightarrow>
        list_all device_retain_rule (sent d')"
    using loop_rule [of d e d'] by blast
  have 4: "\<not> mqtt_connected d \<and> reconnectMQTT attempts d = Some d2 \<longrightarrow>
        will d2 = Some \<lparr>dtopic = TOPIC_STATUS, dpayload = Text ''offline'', retained = False\<rparr>"
    using reconnectMQTT_will [of d attempts d2] by blast
  have 5: "will_rule d \<and> loop e d = Some d' \<longrightarrow> will_rule d'"
    using loop_will_rule [of d e d'] by blast
  from 1 2 3 4 5 show ?thesis by (intro conjI)
qed

theorem retain_flags_witness:
  "list_all config_only_retained (published demo_store)
   \<and> list_all config_only_retained
        (published (handleMessage ''smartbin/BIN_01/data/level'' ''{\"level\":85,\"cm\":30}'' demo_store))
   \<and> list_all config_only_retained
        (published (snd (put_bins_config ''BIN_01'' (JObj [(''mode'', JStr ''AUTH'')]) demo_store)))
   \<and> map retain (published (snd (put_bins_config ''BIN_01'' (JObj [(''mode'', JStr ''AUTH'')])
                                   demo_store))) = [True]
   \<and> list_all device_retain_rule (sent boot) \<and> will_rule boot \<and> \<not> mqtt_connected boot
   \<and> (\<exists>d'. loop \<lparr>elapsed = 12000, connect_results = [True], inbox = [], level_reading = 12,
                    proximity_reading = 0, card_present = None\<rparr> boot = Some d'
            \<and> list_all device_retain_rule (sent d') \<and> will_rule d')
   \<and> (\<exists>d2. reconnectMQTT [True] boot = Some d2
            \<and> will d2 = Some \<lparr>dtopic = TOPIC_STATUS, dpayload = Text ''offline'',
                                retained = False\<rparr>)"
proof -
  define e where "e = \<lparr>elapsed = 12000, connect_results = [True], inbox = [], level_reading = 12,
                        proximity_reading = 0, card_present = None\<rparr>"
  have h0: "list_all config_only_retained (published demo_store)"
    by (simp add: demo_store_def)
  have h1: "list_all device_retain_rule (sent boot)" "will_rule boot" "\<not> mqtt_connected boot"
    by (simp_all add: boot_def will_rule_def)
  have "loop e boot \<noteq> None"
    unfolding e_def by code_simp
  then obtain d' where d': "loop e boot = Some d'" by auto
  have "reconnectMQTT [True] boot \<noteq> None"
    by code_simp
  then obtain d2 where d2: "reconnectMQTT [True] boot = Some d2" by auto
  have c: "map retain (published (snd (put_bins_config ''BIN_01'' (JObj [(''mode'', JStr ''AUTH'')])
                                         demo_store))) = [True]"
    by code_simp
  note t = retain_flags [of demo_store "''smartbin/BIN_01/data/level''" "''{\"level\":85,\"cm\":30}''"
                            "''BIN_01''" "JObj [(''mode'', JStr ''AUTH'')]" _ _ boot e d' "[True]" d2]
  from t h0 have a: "list_all config_only_retained
        (published (handleMessage ''smartbin/BIN_01/data/level'' ''{\"level\":85,\"cm\":30}'' demo_store))"
    and b: "list_all config_only_retained
        (published (snd (put_bins_config ''BIN_01'' (JObj [(''mode'', JStr ''AUTH'')]) demo_store)))"
    by simp_all
  from t h1 d' have "list_all device_retain_rule (sent d') \<and> will_rule d'" by simp
  with d' have x: "\<exists>d'. loop e boot = Some d' \<and> list_all device_retain_rule (sent d') \<and> will_rule d'"
    by simp
  from t h1 d2 have "will d2 = Some \<lparr>dtopic = TOPIC_STATUS, dpayload = Text ''offline'',
                                       retained = False\<rparr>"
    by simp
  with d2 have y: "\<exists>d2. reconnectMQTT [True] boot = Some d2
                     \<and> will d2 = Some \<lparr>dtopic = TOPIC_STATUS, dpayload = Text ''offline'',
                                         retained = False\<rparr>"
    by simp
  from h0 a b c h1 x y show ?thesis
    unfolding e_def by (intro conjI)
qed


end
